theory Spec2Isabelle
  imports Main
begin

section \<open>The cargo task manager of \<^verbatim>\<open>cargo_manager.ts\<close>\<close>

text \<open>
  The class \<^verbatim>\<open>CargoTaskManager\<close> is an event-driven object: public methods are
  called by the editor, and the \<^verbatim>\<open>Task\<close> objects it creates call back into it
  (started, a line on stdout or stderr, the end of \<^verbatim>\<open>execute()\<close>, the end of an
  awaited \<^verbatim>\<open>kill()\<close>). The model is a record of the manager's fields and of its
  collaborators' observable state, and a function \<open>step\<close> that runs the body of one
  method or callback to completion, as the single-threaded event loop does.
\<close>

subsection \<open>Collaborators that are not part of this file\<close>

datatype severity = SevError | SevWarning | SevInformation

text \<open>
  Modelled from the spec: \<^verbatim>\<open>FileDiagnostic\<close> (declared in
  \<^verbatim>\<open>diagnostic_parser.ts\<close>): a file path, a range, a severity, a message and
  an optional code.
\<close>

datatype file_diagnostic =
  FileDiagnostic (filePath: string) (span: "nat \<times> nat \<times> nat \<times> nat")
    (level: severity) (msg: string) (dcode: "string option")

datatype error = Error (message: string)

text \<open>What \<^verbatim>\<open>task.execute()\<close> settles with: an exit code, or a rejection
  that carries an error or nothing (the task has been interrupted).\<close>

datatype outcome = Resolved int | Rejected "error option"

text \<open>
  Modelled from the spec: the lifecycle of a \<^verbatim>\<open>Task\<close> (declared in
  \<^verbatim>\<open>task.ts\<close>): Created, Running, and then exactly one of Completed (exit code),
  Failed (start error) or Killed.
\<close>

datatype task_state = Created | Running | Completed int | Failed error | Killed

text \<open>
  A \<^verbatim>\<open>Task\<close> is created at three places, each wiring its own callbacks:
  \<^verbatim>\<open>runCargoWithCwd\<close> (the task stored in \<^verbatim>\<open>this.currentTask\<close>),
  \<^verbatim>\<open>checkCargoCheckAvailability\<close> (the probe; it carries the address of the array
  \<open>args\<close> of the \<^verbatim>\<open>invokeCargoCheckWithArgs\<close> call that waits for it) and
  \<^verbatim>\<open>invokeCargoNew\<close>/\<^verbatim>\<open>invokeCargoInit\<close>.
\<close>

datatype task_kind = CargoTask | AvailabilityProbe nat | Scaffold

text \<open>\<open>interrupted\<close> records that \<^verbatim>\<open>kill()\<close> was called on the task;
  \<open>startTime\<close> is the variable of that name that the callbacks of
  \<^verbatim>\<open>runCargoWithCwd\<close> share.\<close>

record task =
  targs :: "string list"
  tcwd :: string
  tkind :: task_kind
  tstate :: task_state
  interrupted :: bool
  startTime :: "nat option"

definition newTask :: "task_kind \<Rightarrow> string list \<Rightarrow> string \<Rightarrow> task" where
  "newTask k args cwd =
     \<lparr>targs = args, tcwd = cwd, tkind = k, tstate = Created, interrupted = False,
      startTime = None\<rparr>"

definition live :: "task \<Rightarrow> bool" where
  "live t \<longleftrightarrow> tstate t = Created \<or> tstate t = Running"

datatype CrateType = Application | Library

text \<open>What is appended to the output channel. The two summary lines embed numbers and
  are kept structured: \<open>CompletedWithCode c\<close> is
  \<^verbatim>\<open>Completed with code ${exitCode}\n\<close> and \<open>ItTook start end\<close> is
  \<^verbatim>\<open>It took approximately ${(endTime - startTime) / 1000} seconds\n\<close>.\<close>

datatype chan_item = Text string | CompletedWithCode int | ItTook "nat option" nat

text \<open>The calls made on the parser, the publisher and the tasks, in the order they are
  made, each with the task whose callback (or whose creation) makes it.\<close>

datatype effect =
  ClearDiagnostics
  | ParseLine nat string
  | PublishDiagnostic nat file_diagnostic string
  | Execute nat
  | Kill nat

text \<open>The configuration and the collaborators' answers at the time of an event:
  \<^verbatim>\<open>currentWorkingDirectoryManager.cwd()\<close> returns a path or throws,
  and \<^verbatim>\<open>diagnosticParser.parseLine\<close> is a function of the line.\<close>

record env =
  cwd :: "error + string"
  shouldShowRunningCargoTaskOutputChannel :: bool
  showOutput :: bool
  parseLine :: "string \<Rightarrow> file_diagnostic list"

subsection \<open>The manager's state\<close>

text \<open>
  \<open>currentTask\<close> is an index into \<open>tasks\<close>; \<^verbatim>\<open>undefined\<close> and
  \<^verbatim>\<open>null\<close> are both \<open>None\<close> (the code only tests the field for truthiness).
  \<open>pending\<close> holds the \<^verbatim>\<open>runCargo\<close> calls suspended at
  \<^verbatim>\<open>await this.currentTask.kill()\<close>: the task killed and the call to re-issue.

  The arrays \<open>args\<close> that callers pass are objects: \<^verbatim>\<open>invokeCargoCheckWithArgs\<close>
  changes its argument in place (\<^verbatim>\<open>args.push\<close>), and a suspended call keeps a
  reference to its argument, not a copy. \<open>arrays\<close> is the store of these arrays; an
  address is an index into it, and the methods take the address of \<open>args\<close>.
\<close>

record manager =
  currentTask :: "nat option"
  diagnosticPublishingEnabled :: bool
  channel :: "chan_item list"
  channelShown :: bool
  statusBarShown :: bool
  published :: "(string \<times> file_diagnostic list) list"
  tasks :: "task list"
  pending :: "(nat \<times> string \<times> nat \<times> bool) list"
  arrays :: "string list list"
  errorMessages :: "string list"
  informationMessages :: "string list"
  log :: "effect list"

definition init :: manager where
  "init =
     \<lparr>currentTask = None, diagnosticPublishingEnabled = True, channel = [],
      channelShown = False, statusBarShown = False, published = [], tasks = [],
      pending = [], arrays = [], errorMessages = [], informationMessages = [], log = []\<rparr>"

subsection \<open>The publisher\<close>

text \<open>
  Modelled from the spec: \<^verbatim>\<open>DiagnosticPublisher\<close> (declared in
  \<^verbatim>\<open>diagnostic_publisher.ts\<close>). \<^verbatim>\<open>clearDiagnostics()\<close> empties the
  published set; \<^verbatim>\<open>publishDiagnostic(d, baseDir)\<close> resolves the path against
  \<open>baseDir\<close> if it is relative and appends \<open>d\<close> to the sequence of that file.
\<close>

definition resolvePath :: "string \<Rightarrow> string \<Rightarrow> string" where
  "resolvePath baseDir p =
     (case p of
        c # _ \<Rightarrow> if c = CHR ''/'' then p else baseDir @ ''/'' @ p
      | [] \<Rightarrow> baseDir @ ''/'' @ p)"

fun appendFor :: "string \<Rightarrow> file_diagnostic \<Rightarrow> (string \<times> file_diagnostic list) list \<Rightarrow>
    (string \<times> file_diagnostic list) list" where
  "appendFor p d [] = [(p, [d])]"
| "appendFor p d ((q, ds) # rest) =
     (if q = p then (q, ds @ [d]) # rest else (q, ds) # appendFor p d rest)"

definition clearDiagnostics :: "manager \<Rightarrow> manager" where
  "clearDiagnostics s = s\<lparr>published := [], log := log s @ [ClearDiagnostics]\<rparr>"

definition publishDiagnostic :: "nat \<Rightarrow> file_diagnostic \<Rightarrow> string \<Rightarrow> manager \<Rightarrow> manager" where
  "publishDiagnostic t d baseDir s =
     s\<lparr>published := appendFor (resolvePath baseDir (filePath d)) d (published s),
       log := log s @ [PublishDiagnostic t d baseDir]\<rparr>"

subsection \<open>Tasks\<close>

definition addTask :: "task \<Rightarrow> manager \<Rightarrow> manager" where
  "addTask t s = s\<lparr>tasks := tasks s @ [t]\<rparr>"

definition execute :: "nat \<Rightarrow> manager \<Rightarrow> manager" where
  "execute t s = s\<lparr>log := log s @ [Execute t]\<rparr>"

definition kill :: "nat \<Rightarrow> manager \<Rightarrow> manager" where
  "kill t s =
     s\<lparr>tasks := (tasks s)[t := (tasks s ! t)\<lparr>interrupted := True\<rparr>],
       log := log s @ [Kill t]\<rparr>"

definition setState :: "nat \<Rightarrow> task_state \<Rightarrow> manager \<Rightarrow> manager" where
  "setState t st s = s\<lparr>tasks := (tasks s)[t := (tasks s ! t)\<lparr>tstate := st\<rparr>]\<rparr>"

subsection \<open>The methods of \<^verbatim>\<open>CargoTaskManager\<close>\<close>

definition setDiagnosticPublishingEnabled :: "bool \<Rightarrow> manager \<Rightarrow> manager" where
  "setDiagnosticPublishingEnabled b s = s\<lparr>diagnosticPublishingEnabled := b\<rparr>"

definition channelAppend :: "chan_item \<Rightarrow> manager \<Rightarrow> manager" where
  "channelAppend m s = s\<lparr>channel := channel s @ [m]\<rparr>"

definition channelClear :: "manager \<Rightarrow> manager" where
  "channelClear s = s\<lparr>channel := []\<rparr>"

definition channelShow :: "manager \<Rightarrow> manager" where
  "channelShow s = s\<lparr>channelShown := True\<rparr>"

fun join :: "string \<Rightarrow> string list \<Rightarrow> string" where
  "join sep [] = []"
| "join sep [x] = x"
| "join sep (x # y # ys) = x @ sep @ join sep (y # ys)"

definition startsWithBrace :: "string \<Rightarrow> bool" where
  "startsWithBrace line = (case line of c # _ \<Rightarrow> c = CHR ''{'' | [] \<Rightarrow> False)"

text \<open>The \<^verbatim>\<open>switch\<close> of \<^verbatim>\<open>runCargoWithCwd\<close> and the two
  \<^verbatim>\<open>concat\<close>s after it.\<close>

definition jsonCommands :: "string list" where
  "jsonCommands = [''build'', ''check'', ''clippy'', ''test'', ''run'']"

definition cargoArgs :: "string \<Rightarrow> string list \<Rightarrow> string list" where
  "cargoArgs command args =
     (let args1 = (if command \<in> set jsonCommands
                   then [''--message-format'', ''json''] @ args else args)
      in [command] @ args1)"

definition invokeCargoInit :: "env \<Rightarrow> CrateType \<Rightarrow> string \<Rightarrow> string \<Rightarrow> manager \<Rightarrow> manager" where
  "invokeCargoInit e crateType name dir s =
     (let args = [''init'', ''--name'', name] @
                 (case crateType of Application \<Rightarrow> [''--bin''] | Library \<Rightarrow> [''--lib'']);
          s1 = channelClear s;
          s2 = (if showOutput e then channelShow s1 else s1);
          t = length (tasks s2)
      in execute t (addTask (newTask Scaffold args dir) s2))"

definition invokeCargoNew :: "env \<Rightarrow> string \<Rightarrow> bool \<Rightarrow> string \<Rightarrow> manager \<Rightarrow> manager" where
  "invokeCargoNew e projectName isBin dir s =
     (let s1 = channelClear s;
          args = [''new'', projectName, if isBin then ''--bin'' else ''--lib''];
          s2 = (if showOutput e then channelShow s1 else s1);
          t = length (tasks s2)
      in execute t (addTask (newTask Scaffold args dir) s2))"

definition stopTask :: "manager \<Rightarrow> manager" where
  "stopTask s = (case currentTask s of Some t \<Rightarrow> kill t s | None \<Rightarrow> s)"

definition runCargoWithCwd :: "env \<Rightarrow> string \<Rightarrow> string list \<Rightarrow> string \<Rightarrow> manager \<Rightarrow> manager" where
  "runCargoWithCwd e command args dir s =
     (let s1 = clearDiagnostics s;
          s2 = (if shouldShowRunningCargoTaskOutputChannel e then channelShow s1 else s1);
          args2 = cargoArgs command args;
          t = length (tasks s2);
          s3 = (addTask (newTask CargoTask args2 dir) s2)\<lparr>currentTask := Some t\<rparr>;
          s4 = s3\<lparr>statusBarShown := True\<rparr>
      in execute t s4)"

text \<open>\<^verbatim>\<open>runCargo\<close> up to its first suspension point; \<open>args\<close> is the address
  of the array. With \<open>force\<close> and an occupied slot the call kills the current task and
  suspends; it is resumed by \<open>killResolved\<close> below, which calls \<open>runCargo\<close> again.
  \<^verbatim>\<open>runCargoWithCwd\<close> reads the array at once (both \<^verbatim>\<open>concat\<close>s copy
  it), so it is given the contents the array has when it is called.\<close>

definition runCargo :: "env \<Rightarrow> string \<Rightarrow> nat \<Rightarrow> bool \<Rightarrow> manager \<Rightarrow> manager" where
  "runCargo e command args force s =
     (if force \<and> currentTask s \<noteq> None then
        (let t = the (currentTask s)
         in (kill t s)\<lparr>pending := pending s @ [(t, command, args, force)]\<rparr>)
      else if currentTask s \<noteq> None then s
      else
        (case cwd e of
           Inl err \<Rightarrow> s\<lparr>errorMessages := errorMessages s @ [message err]\<rparr>
         | Inr dir \<Rightarrow> runCargoWithCwd e command (arrays s ! args) dir s))"

definition invokeCargo :: "env \<Rightarrow> string \<Rightarrow> nat \<Rightarrow> manager \<Rightarrow> manager" where
  "invokeCargo e command args s = runCargo e command args True s"

text \<open>\<^verbatim>\<open>invokeCargoCheckWithArgs\<close> up to the end of the probe: it creates and
  executes the probe task of \<^verbatim>\<open>checkCargoCheckAvailability\<close>.\<close>

definition invokeCargoCheckWithArgs :: "nat \<Rightarrow> manager \<Rightarrow> manager" where
  "invokeCargoCheckWithArgs args s =
     (let t = length (tasks s)
      in execute t (addTask (newTask (AvailabilityProbe args) [''check'', ''--help''] ''/'') s))"

text \<open>\<^verbatim>\<open>args.push(...)\<close>: the array at the address grows in place, for every
  holder of the address.\<close>

definition push :: "nat \<Rightarrow> string list \<Rightarrow> manager \<Rightarrow> manager" where
  "push a xs s = s\<lparr>arrays := (arrays s)[a := arrays s ! a @ xs]\<rparr>"

text \<open>The rest of \<^verbatim>\<open>invokeCargoCheckWithArgs\<close>: the \<^verbatim>\<open>then\<close> callback,
  called with \<^verbatim>\<open>exitCode === 0\<close>.\<close>

definition checkAvailabilityThen :: "env \<Rightarrow> int \<Rightarrow> nat \<Rightarrow> manager \<Rightarrow> manager" where
  "checkAvailabilityThen e exitCode args s =
     (let isAvailable = (exitCode = 0)
      in if isAvailable then runCargo e ''check'' args True s
         else runCargo e ''rustc'' args True (push args [''--'', ''-Zno-trans''] s))"

subsection \<open>The callbacks wired by \<^verbatim>\<open>runCargoWithCwd\<close>\<close>

definition onStarted :: "nat \<Rightarrow> nat \<Rightarrow> manager \<Rightarrow> manager" where
  "onStarted t now s =
     (let s1 = s\<lparr>tasks := (tasks s)[t := (tasks s ! t)\<lparr>startTime := Some now\<rparr>]\<rparr>;
          s2 = channelClear s1
      in channelAppend (Text (''Started cargo '' @ join '' '' (targs (tasks s ! t)) @ [CHR 0x0A])) s2)"

definition onLineReceivedInStdout :: "env \<Rightarrow> nat \<Rightarrow> string \<Rightarrow> manager \<Rightarrow> manager" where
  "onLineReceivedInStdout e t line s =
     (if startsWithBrace line then
        (let fileDiagnostics = parseLine e line;
             s1 = s\<lparr>log := log s @ [ParseLine t line]\<rparr>
         in foldl (\<lambda>s' d. if diagnosticPublishingEnabled s'
                           then publishDiagnostic t d (tcwd (tasks s' ! t)) s' else s')
              s1 fileDiagnostics)
      else channelAppend (Text (line @ [CHR 0x0A])) s)"

definition onLineReceivedInStderr :: "string \<Rightarrow> manager \<Rightarrow> manager" where
  "onLineReceivedInStderr line s = channelAppend (Text (line @ [CHR 0x0A])) s"

definition onGracefullyEnded :: "nat \<Rightarrow> int \<Rightarrow> nat \<Rightarrow> manager \<Rightarrow> manager" where
  "onGracefullyEnded t exitCode now s =
     (let s1 = s\<lparr>statusBarShown := False\<rparr>;
          s2 = s1\<lparr>currentTask := None\<rparr>;
          s3 = channelAppend (CompletedWithCode exitCode) s2
      in channelAppend (ItTook (startTime (tasks s ! t)) now) s3)"

text \<open>The message \<^verbatim>\<open>The "cargo" command is not available. Make sure it is installed.\<close>
  (\<open>CHR 0x22\<close> is the double quote).\<close>

definition cargoNotAvailable :: string where
  "cargoNotAvailable =
     ''The '' @ [CHR 0x22] @ ''cargo'' @ [CHR 0x22] @
     '' command is not available. Make sure it is installed.''"

definition onUnexpectedlyEnded :: "error option \<Rightarrow> manager \<Rightarrow> manager" where
  "onUnexpectedlyEnded err s =
     (let s1 = s\<lparr>statusBarShown := False\<rparr>;
          s2 = s1\<lparr>currentTask := None\<rparr>
      in case err of
           None \<Rightarrow> s2
         | Some er \<Rightarrow>
             if message er \<noteq> ''ENOENT'' then s2
             else s2\<lparr>informationMessages := informationMessages s2 @ [cargoNotAvailable]\<rparr>)"

subsection \<open>Events\<close>

datatype event =
  NewArray "string list"
  | RunCargo string nat bool
  | InvokeCargoCheckWithArgs nat
  | InvokeCargoNew string bool string
  | InvokeCargoInit CrateType string string
  | StopTask
  | SetDiagnosticPublishingEnabled bool
  | Started nat nat
  | LineStdout nat string
  | LineStderr nat string
  | Ended nat outcome nat
  | KillResolved nat

text \<open>
  Modelled from the spec: what a \<^verbatim>\<open>Task\<close> (declared in \<^verbatim>\<open>task.ts\<close>)
  delivers. It calls the started callback once, when the process is live, and
  \<^verbatim>\<open>execute()\<close> settles exactly once; a started or end event that a task cannot
  deliver in its state is dropped. Nothing is assumed about when lines arrive: the line
  callbacks run for every line of an existing task, whatever its state (buffered output
  may be flushed after a kill and after the end), as the callbacks themselves test
  nothing but the line.
\<close>

definition taskStarted :: "nat \<Rightarrow> nat \<Rightarrow> manager \<Rightarrow> manager" where
  "taskStarted t now s =
     (if t < length (tasks s) \<and> tstate (tasks s ! t) = Created then
        (let s1 = setState t Running s
         in case tkind (tasks s ! t) of
              CargoTask \<Rightarrow> onStarted t now s1
            | AvailabilityProbe _ \<Rightarrow> s1
            | Scaffold \<Rightarrow> s1)
      else s)"

definition taskStdout :: "env \<Rightarrow> nat \<Rightarrow> string \<Rightarrow> manager \<Rightarrow> manager" where
  "taskStdout e t line s =
     (if t < length (tasks s) then
        (case tkind (tasks s ! t) of
           CargoTask \<Rightarrow> onLineReceivedInStdout e t line s
         | AvailabilityProbe _ \<Rightarrow> s
         | Scaffold \<Rightarrow> channelAppend (Text (line @ [CHR 0x0A])) s)
      else s)"

definition taskStderr :: "nat \<Rightarrow> string \<Rightarrow> manager \<Rightarrow> manager" where
  "taskStderr t line s =
     (if t < length (tasks s) then
        (case tkind (tasks s ! t) of
           CargoTask \<Rightarrow> onLineReceivedInStderr line s
         | AvailabilityProbe _ \<Rightarrow> s
         | Scaffold \<Rightarrow> channelAppend (Text (line @ [CHR 0x0A])) s)
      else s)"

definition endState :: "outcome \<Rightarrow> task_state" where
  "endState out =
     (case out of
        Resolved c \<Rightarrow> Completed c
      | Rejected None \<Rightarrow> Killed
      | Rejected (Some er) \<Rightarrow> Failed er)"

definition taskEnded :: "env \<Rightarrow> nat \<Rightarrow> outcome \<Rightarrow> nat \<Rightarrow> manager \<Rightarrow> manager" where
  "taskEnded e t out now s =
     (if t < length (tasks s) \<and> live (tasks s ! t) then
        (let s1 = setState t (endState out) s
         in case tkind (tasks s ! t) of
              CargoTask \<Rightarrow>
                (case out of
                   Resolved c \<Rightarrow> onGracefullyEnded t c now s1
                 | Rejected err \<Rightarrow> onUnexpectedlyEnded err s1)
            | AvailabilityProbe args \<Rightarrow>
                (case out of
                   Resolved c \<Rightarrow> checkAvailabilityThen e c args s1
                 | Rejected err \<Rightarrow> s1)
            | Scaffold \<Rightarrow> s1)
      else s)"

text \<open>The promise of an awaited \<^verbatim>\<open>kill()\<close> resolves: the suspended
  \<^verbatim>\<open>runCargo\<close> continues with \<^verbatim>\<open>this.runCargo(command, args, force)\<close>.\<close>

definition killResolved :: "env \<Rightarrow> nat \<Rightarrow> manager \<Rightarrow> manager" where
  "killResolved e i s =
     (if i < length (pending s) then
        (case pending s ! i of
           (t, command, args, force) \<Rightarrow>
             runCargo e command args force
               (s\<lparr>pending := take i (pending s) @ drop (Suc i) (pending s)\<rparr>))
      else s)"

text \<open>A caller creates an array; a call with an address names an array that exists.\<close>

definition newArray :: "string list \<Rightarrow> manager \<Rightarrow> manager" where
  "newArray xs s = s\<lparr>arrays := arrays s @ [xs]\<rparr>"

fun step :: "env \<Rightarrow> event \<Rightarrow> manager \<Rightarrow> manager" where
  "step e (NewArray xs) s = newArray xs s"
| "step e (RunCargo command args force) s =
     (if args < length (arrays s) then runCargo e command args force s else s)"
| "step e (InvokeCargoCheckWithArgs args) s =
     (if args < length (arrays s) then invokeCargoCheckWithArgs args s else s)"
| "step e (InvokeCargoNew projectName isBin dir) s = invokeCargoNew e projectName isBin dir s"
| "step e (InvokeCargoInit crateType name dir) s = invokeCargoInit e crateType name dir s"
| "step e StopTask s = stopTask s"
| "step e (SetDiagnosticPublishingEnabled b) s = setDiagnosticPublishingEnabled b s"
| "step e (Started t now) s = taskStarted t now s"
| "step e (LineStdout t line) s = taskStdout e t line s"
| "step e (LineStderr t line) s = taskStderr t line s"
| "step e (Ended t out now) s = taskEnded e t out now s"
| "step e (KillResolved i) s = killResolved e i s"

subsection \<open>Reading the log\<close>

fun effTask :: "effect \<Rightarrow> nat option" where
  "effTask ClearDiagnostics = None"
| "effTask (ParseLine t line) = Some t"
| "effTask (PublishDiagnostic t d baseDir) = Some t"
| "effTask (Execute t) = Some t"
| "effTask (Kill t) = Some t"

text \<open>The published set that a sequence of publisher calls leaves behind.\<close>

fun replay :: "(string \<times> file_diagnostic list) list \<Rightarrow> effect list \<Rightarrow>
    (string \<times> file_diagnostic list) list" where
  "replay ps [] = ps"
| "replay ps (ClearDiagnostics # es) = replay [] es"
| "replay ps (PublishDiagnostic t d baseDir # es) =
     replay (appendFor (resolvePath baseDir (filePath d)) d ps) es"
| "replay ps (ParseLine t line # es) = replay ps es"
| "replay ps (Execute t # es) = replay ps es"
| "replay ps (Kill t # es) = replay ps es"

text \<open>An execution: events in the order they are handled, each with the environment
  at that time, from the state the constructor sets up.\<close>

definition exec :: "(env \<times> event) list \<Rightarrow> manager" where
  "exec evs = foldl (\<lambda>s (e, ev). step e ev s) init evs"


subsection \<open>Invariants of an execution\<close>

text \<open>The slot holds exactly the task of \<^verbatim>\<open>runCargoWithCwd\<close> that has not ended,
  if there is one.\<close>

definition slotOK :: "nat option \<Rightarrow> task list \<Rightarrow> bool" where
  "slotOK c ts \<longleftrightarrow>
     (\<forall>i<length ts. (tkind (ts ! i) = CargoTask \<and> live (ts ! i)) = (c = Some i)) \<and>
     (\<forall>t. c = Some t \<longrightarrow> t < length ts)"

text \<open>The log names existing tasks only.\<close>

definition logOK :: "task list \<Rightarrow> effect list \<Rightarrow> bool" where
  "logOK ts lg \<longleftrightarrow> (\<forall>ef\<in>set lg. \<forall>t. effTask ef = Some t \<longrightarrow> t < length ts)"

text \<open>Task \<open>t\<close> was executed right after a \<^verbatim>\<open>clearDiagnostics()\<close>, and
  nothing of that task was logged before.\<close>

definition startedIn :: "nat \<Rightarrow> effect list \<Rightarrow> bool" where
  "startedIn t lg \<longleftrightarrow>
     (\<exists>pre post. lg = pre @ ClearDiagnostics # Execute t # post \<and>
        (\<forall>ef\<in>set pre. effTask ef \<noteq> Some t))"

text \<open>Every task of \<^verbatim>\<open>runCargoWithCwd\<close> was started that way.\<close>

definition runOK :: "task list \<Rightarrow> effect list \<Rightarrow> bool" where
  "runOK ts lg \<longleftrightarrow> (\<forall>t<length ts. tkind (ts ! t) = CargoTask \<longrightarrow> startedIn t lg)"

text \<open>Every \<^verbatim>\<open>publishDiagnostic\<close> call in the log was made after the start of its
  task.\<close>

definition histOK :: "effect list \<Rightarrow> bool" where
  "histOK lg \<longleftrightarrow>
     (\<forall>xs t d dir ys. lg = xs @ PublishDiagnostic t d dir # ys \<longrightarrow> startedIn t xs)"

definition managerInv :: "manager \<Rightarrow> bool" where
  "managerInv s \<longleftrightarrow>
     slotOK (currentTask s) (tasks s) \<and> logOK (tasks s) (log s) \<and>
     published s = replay [] (log s) \<and> runOK (tasks s) (log s) \<and> histOK (log s)"

subsection \<open>Example environments and executions\<close>

definition exampleParse :: "string \<Rightarrow> file_diagnostic list" where
  "exampleParse line = [FileDiagnostic ''src/lib.rs'' (2, 0, 2, 9) SevWarning line None]"

definition exampleEnv :: env where
  "exampleEnv =
     \<lparr>cwd = Inr ''/w'', shouldShowRunningCargoTaskOutputChannel = False, showOutput = False,
      parseLine = exampleParse\<rparr>"

definition noWorkspaceEnv :: env where
  "noWorkspaceEnv =
     \<lparr>cwd = Inl (Error ''no workspace''), shouldShowRunningCargoTaskOutputChannel = False,
      showOutput = False, parseLine = exampleParse\<rparr>"

definition diagA :: file_diagnostic where
  "diagA = FileDiagnostic ''src/lib.rs'' (2, 0, 2, 9) SevWarning ''{a}'' None"

definition diagLate :: file_diagnostic where
  "diagLate = FileDiagnostic ''src/lib.rs'' (2, 0, 2, 9) SevWarning ''{late}'' None"

text \<open>A build is running; its arguments are the array at address 0.\<close>

definition buildRunning :: "(env \<times> event) list" where
  "buildRunning =
     [(exampleEnv, NewArray []), (exampleEnv, RunCargo ''build'' 0 True),
      (exampleEnv, Started 0 1)]"

text \<open>A test run is forced while the build runs.\<close>

definition forcedRestart :: "(env \<times> event) list" where
  "forcedRestart = buildRunning @ [(exampleEnv, RunCargo ''test'' 0 True)]"

text \<open>The build then prints one more line.\<close>

definition lineAfterKill :: "(env \<times> event) list" where
  "lineAfterKill = forcedRestart @ [(exampleEnv, LineStdout 0 ''{a}'')]"

text \<open>Instead, the build ends and the kill resolves, so that the test run starts; then
  a line of the build is delivered.\<close>

definition restarted :: "(env \<times> event) list" where
  "restarted =
     forcedRestart @ [(exampleEnv, Ended 0 (Rejected None) 5), (exampleEnv, KillResolved 0)]"

definition lateLine :: "(env \<times> event) list" where
  "lateLine = restarted @ [(exampleEnv, LineStdout 0 ''{late}'')]"

text \<open>The availability probe is started while the build runs; its caller's array is at
  address 1.\<close>

definition buildAndProbe :: "(env \<times> event) list" where
  "buildAndProbe =
     buildRunning @
     [(exampleEnv, NewArray [''--lib'']), (exampleEnv, InvokeCargoCheckWithArgs 1),
      (exampleEnv, Started 1 2)]"

text \<open>Two checks are invoked with the same array, one after the other, before either
  probe has ended; both probes exit with a code other than 0, and the run of the first
  check completes before the second probe ends.\<close>

definition twoChecks :: "(env \<times> event) list" where
  "twoChecks =
     [(exampleEnv, NewArray [''--lib'']), (exampleEnv, InvokeCargoCheckWithArgs 0),
      (exampleEnv, InvokeCargoCheckWithArgs 0), (exampleEnv, Ended 0 (Resolved 101) 3),
      (exampleEnv, Started 2 4), (exampleEnv, Ended 2 (Resolved 101) 6),
      (exampleEnv, Ended 1 (Resolved 101) 7)]"


section \<open>Invariant proofs\<close>

subsection \<open>Facts about task lists and logs\<close>

lemma slotOK_same:
  assumes "slotOK c ts" "tkind x = tkind (ts ! t)" "tstate x = tstate (ts ! t)"
  shows "slotOK c (ts[t := x])"
proof -
  have k: "tkind (ts[t := x] ! i) = tkind (ts ! i)" if "i < length ts" for i
    using that assms(2) by (cases "i = t") simp_all
  have l: "live (ts[t := x] ! i) = live (ts ! i)" if "i < length ts" for i
    using that assms(3) by (cases "i = t") (simp_all add: live_def)
  show ?thesis using assms(1) unfolding slotOK_def by (simp add: k l)
qed

lemma slotOK_add_cargo:
  "slotOK None ts \<Longrightarrow> slotOK (Some (length ts)) (ts @ [newTask CargoTask a d])"
  unfolding slotOK_def live_def
  by (auto simp add: nth_append newTask_def less_Suc_eq)

lemma slotOK_add_other:
  "slotOK c ts \<Longrightarrow> k \<noteq> CargoTask \<Longrightarrow> slotOK c (ts @ [newTask k a d])"
  unfolding slotOK_def live_def
  by (auto simp add: nth_append newTask_def less_Suc_eq)

lemma slotOK_running:
  assumes "slotOK c ts" "tstate (ts ! t) = Created" "tkind x = tkind (ts ! t)" "tstate x = Running"
  shows "slotOK c (ts[t := x])"
proof -
  have k: "tkind (ts[t := x] ! i) = tkind (ts ! i)" if "i < length ts" for i
    using that assms(3) by (cases "i = t") simp_all
  have l: "live (ts[t := x] ! i) = live (ts ! i)" if "i < length ts" for i
    using that assms(2,4) by (cases "i = t") (simp_all add: live_def)
  show ?thesis using assms(1) unfolding slotOK_def by (simp add: k l)
qed

lemma slotOK_end_cargo:
  assumes "slotOK c ts" "t < length ts" "tkind (ts ! t) = CargoTask" "live (ts ! t)" "\<not> live x"
  shows "slotOK None (ts[t := x])"
proof -
  have c: "c = Some t" using assms(1-4) unfolding slotOK_def by blast
  have "\<not> (tkind (ts[t := x] ! i) = CargoTask \<and> live (ts[t := x] ! i))" if "i < length ts" for i
  proof (cases "i = t")
    case True then show ?thesis using that assms(5) by simp
  next
    case False
    then have "\<not> (tkind (ts ! i) = CargoTask \<and> live (ts ! i))"
      using assms(1) that c unfolding slotOK_def by simp
    then show ?thesis using False by simp
  qed
  then show ?thesis unfolding slotOK_def by simp
qed

lemma slotOK_end_other:
  assumes "slotOK c ts" "t < length ts" "tkind (ts ! t) \<noteq> CargoTask" "tkind x = tkind (ts ! t)"
  shows "slotOK c (ts[t := x])"
proof -
  have "(tkind (ts[t := x] ! i) = CargoTask \<and> live (ts[t := x] ! i)) = (tkind (ts ! i) = CargoTask \<and> live (ts ! i))"
    if "i < length ts" for i
    using that assms(3,4) by (cases "i = t") simp_all
  then show ?thesis using assms(1) unfolding slotOK_def by simp
qed

lemma logOK_mono: "logOK ts lg \<Longrightarrow> length ts \<le> length ts' \<Longrightarrow> logOK ts' lg"
  unfolding logOK_def by (meson less_le_trans)

lemma logOK_append:
  "logOK ts lg \<Longrightarrow> \<forall>ef\<in>set new. \<forall>t. effTask ef = Some t \<longrightarrow> t < length ts \<Longrightarrow> logOK ts (lg @ new)"
  unfolding logOK_def by auto

lemma replay_append: "replay ps (xs @ ys) = replay (replay ps xs) ys"
  by (induction ps xs rule: replay.induct) simp_all

lemma startedIn_append: "startedIn t lg \<Longrightarrow> startedIn t (lg @ new)"
proof -
  assume "startedIn t lg"
  then obtain pre post where
    d: "lg = pre @ ClearDiagnostics # Execute t # post" "\<forall>ef\<in>set pre. effTask ef \<noteq> Some t"
    unfolding startedIn_def by blast
  have "lg @ new = pre @ ClearDiagnostics # Execute t # (post @ new)" using d(1) by simp
  then show ?thesis using d(2) unfolding startedIn_def by blast
qed

lemma runOK_append: "runOK ts lg \<Longrightarrow> runOK ts (lg @ new)"
  unfolding runOK_def using startedIn_append by blast

lemma runOK_upd:
  assumes "runOK ts lg" "tkind x = tkind (ts ! t)"
  shows "runOK (ts[t := x]) lg"
  unfolding runOK_def
proof (intro allI impI)
  fix u assume u: "u < length (ts[t := x])" "tkind (ts[t := x] ! u) = CargoTask"
  then have "tkind (ts ! u) = CargoTask" using assms(2) by (cases "u = t") simp_all
  then show "startedIn u lg" using assms(1) u(1) unfolding runOK_def by simp
qed

lemma runOK_add_other:
  assumes "runOK ts lg" "k \<noteq> CargoTask"
  shows "runOK (ts @ [newTask k a d]) lg"
  unfolding runOK_def
proof (intro allI impI)
  fix u assume u: "u < length (ts @ [newTask k a d])" "tkind ((ts @ [newTask k a d]) ! u) = CargoTask"
  have "u < length ts"
  proof (rule ccontr)
    assume "\<not> u < length ts"
    then have "u = length ts" using u(1) by simp
    then show False using u(2) assms(2) by (simp add: newTask_def)
  qed
  then show "startedIn u lg" using assms(1) u(2) unfolding runOK_def by (simp add: nth_append)
qed

lemma runOK_start:
  assumes "logOK ts lg" "runOK ts lg"
  shows "runOK (ts @ [newTask CargoTask a d]) (lg @ [ClearDiagnostics, Execute (length ts)])"
  unfolding runOK_def
proof (intro allI impI)
  fix u assume u: "u < length (ts @ [newTask CargoTask a d])"
    "tkind ((ts @ [newTask CargoTask a d]) ! u) = CargoTask"
  show "startedIn u (lg @ [ClearDiagnostics, Execute (length ts)])"
  proof (cases "u < length ts")
    case True
    then have "startedIn u lg" using assms(2) u(2) unfolding runOK_def by (simp add: nth_append)
    then show ?thesis by (rule startedIn_append)
  next
    case False
    then have e: "u = length ts" using u(1) by simp
    have 1: "lg @ [ClearDiagnostics, Execute (length ts)] = lg @ ClearDiagnostics # Execute u # []"
      using e by simp
    have 2: "\<forall>ef\<in>set lg. effTask ef \<noteq> Some u"
      using assms(1) e unfolding logOK_def by blast
    show ?thesis unfolding startedIn_def using 1 2 by blast
  qed
qed

lemma histOK_snoc_other:
  assumes "histOK lg" "\<forall>t d dir. ef \<noteq> PublishDiagnostic t d dir"
  shows "histOK (lg @ [ef])"
  unfolding histOK_def
proof (intro allI impI)
  fix xs t d dir ys
  assume eq: "lg @ [ef] = xs @ PublishDiagnostic t d dir # ys"
  show "startedIn t xs"
  proof (cases ys rule: rev_cases)
    case Nil
    then have "ef = PublishDiagnostic t d dir" using eq by simp
    then show ?thesis using assms(2) by simp
  next
    case (snoc zs z)
    then have "lg = xs @ PublishDiagnostic t d dir # zs" using eq by simp
    then show ?thesis using assms(1) unfolding histOK_def by blast
  qed
qed

lemma histOK_snoc_publish:
  assumes "histOK lg" "startedIn t lg"
  shows "histOK (lg @ [PublishDiagnostic t d dir])"
  unfolding histOK_def
proof (intro allI impI)
  fix xs t' d' dir' ys
  assume eq: "lg @ [PublishDiagnostic t d dir] = xs @ PublishDiagnostic t' d' dir' # ys"
  show "startedIn t' xs"
  proof (cases ys rule: rev_cases)
    case Nil
    then have "xs = lg" "t' = t" using eq by simp_all
    then show ?thesis using assms(2) by simp
  next
    case (snoc zs z)
    then have "lg = xs @ PublishDiagnostic t' d' dir' # zs" using eq by simp
    then show ?thesis using assms(1) unfolding histOK_def by blast
  qed
qed

lemma histOK_append:
  assumes "histOK lg" "\<forall>ef\<in>set new. \<forall>t d dir. ef = PublishDiagnostic t d dir \<longrightarrow> startedIn t lg"
  shows "histOK (lg @ new)"
  using assms(2)
proof (induction new rule: rev_induct)
  case Nil
  show ?case using assms(1) by simp
next
  case (snoc x xs)
  have p: "\<forall>ef\<in>set xs. \<forall>t d dir. ef = PublishDiagnostic t d dir \<longrightarrow> startedIn t lg"
    using snoc.prems by simp
  have h: "histOK (lg @ xs)" using snoc.IH p by blast
  have "histOK ((lg @ xs) @ [x])"
  proof (cases "\<exists>t d dir. x = PublishDiagnostic t d dir")
    case True
    then obtain t d dir where x: "x = PublishDiagnostic t d dir" by blast
    then have "startedIn t lg" using snoc.prems by simp
    then have "startedIn t (lg @ xs)" by (rule startedIn_append)
    then show ?thesis unfolding x by (rule histOK_snoc_publish[OF h])
  next
    case False
    then show ?thesis by (intro histOK_snoc_other[OF h]) blast
  qed
  then show ?case by simp
qed

subsection \<open>Every operation keeps the invariant\<close>

lemma inv_cong:
  "managerInv s \<Longrightarrow> currentTask s' = currentTask s \<Longrightarrow> tasks s' = tasks s \<Longrightarrow> log s' = log s \<Longrightarrow>
   published s' = published s \<Longrightarrow> managerInv s'"
  by (simp add: managerInv_def)

lemma inv_slot_bound: "managerInv s \<Longrightarrow> currentTask s = Some t \<Longrightarrow> t < length (tasks s)"
  unfolding managerInv_def slotOK_def by blast

text \<open>The log grows by \<open>new\<close>, no task is added to the slot or taken from it, and the
  kinds of the tasks stay.\<close>

lemma inv_append:
  assumes "managerInv s" "currentTask s' = currentTask s" "length (tasks s) \<le> length (tasks s')"
    "slotOK (currentTask s) (tasks s')" "runOK (tasks s') (log s)" "log s' = log s @ new"
    "\<forall>ef\<in>set new. \<forall>t. effTask ef = Some t \<longrightarrow> t < length (tasks s')"
    "\<forall>ef\<in>set new. \<forall>t d dir. ef = PublishDiagnostic t d dir \<longrightarrow>
       t < length (tasks s) \<and> tkind (tasks s ! t) = CargoTask"
    "published s' = replay (published s) new"
  shows "managerInv s'"
proof -
  have 1: "slotOK (currentTask s') (tasks s')" using assms(2,4) by simp
  have "logOK (tasks s') (log s)" using assms(1,3) logOK_mono unfolding managerInv_def by blast
  then have 2: "logOK (tasks s') (log s')" using assms(6,7) logOK_append by simp
  have 3: "published s' = replay [] (log s')"
    using assms(1,6,9) by (simp add: managerInv_def replay_append)
  have 4: "runOK (tasks s') (log s')" using assms(5,6) by (simp add: runOK_append)
  have r: "runOK (tasks s) (log s)" using assms(1) by (simp add: managerInv_def)
  have "\<forall>ef\<in>set new. \<forall>t d dir. ef = PublishDiagnostic t d dir \<longrightarrow> startedIn t (log s)"
    using assms(8) r unfolding runOK_def by blast
  then have 5: "histOK (log s')"
    using assms(1,6) histOK_append[of "log s" new] by (simp add: managerInv_def)
  show ?thesis using 1 2 3 4 5 by (simp add: managerInv_def)
qed

lemma inv_tasks_upd:
  assumes "managerInv s" "currentTask s' = currentTask s" "log s' = log s"
    "published s' = published s" "tasks s' = (tasks s)[t := x]"
    "slotOK (currentTask s) ((tasks s)[t := x])" "tkind x = tkind (tasks s ! t)"
  shows "managerInv s'"
proof (rule inv_append[OF assms(1), where new = "[]"])
  show "runOK (tasks s') (log s)"
    using assms(1,7) unfolding assms(5) managerInv_def by (simp add: runOK_upd)
qed (simp_all add: assms)

lemma inv_kill:
  assumes "managerInv s" "t < length (tasks s)"
  shows "managerInv (kill t s)"
proof (rule inv_append[OF assms(1), where new = "[Kill t]"])
  show "slotOK (currentTask s) (tasks (kill t s))"
    using assms(1) by (simp add: kill_def managerInv_def slotOK_same)
  show "runOK (tasks (kill t s)) (log s)"
    using assms(1) by (simp add: kill_def managerInv_def runOK_upd)
qed (simp_all add: kill_def assms(2))

lemma inv_runCargoWithCwd:
  assumes "managerInv s" "currentTask s = None"
  shows "managerInv (runCargoWithCwd e c a d s)"
proof -
  let ?s' = "runCargoWithCwd e c a d s"
  have ct: "currentTask ?s' = Some (length (tasks s))"
    by (simp add: runCargoWithCwd_def Let_def clearDiagnostics_def channelShow_def addTask_def execute_def)
  have ts: "tasks ?s' = tasks s @ [newTask CargoTask (cargoArgs c a) d]"
    by (simp add: runCargoWithCwd_def Let_def clearDiagnostics_def channelShow_def addTask_def execute_def)
  have lg: "log ?s' = log s @ [ClearDiagnostics, Execute (length (tasks s))]"
    by (simp add: runCargoWithCwd_def Let_def clearDiagnostics_def channelShow_def addTask_def execute_def)
  have pb: "published ?s' = []"
    by (simp add: runCargoWithCwd_def Let_def clearDiagnostics_def channelShow_def addTask_def execute_def)
  have 1: "slotOK (currentTask ?s') (tasks ?s')"
    using assms slotOK_add_cargo[of "tasks s"] by (simp add: ct ts managerInv_def)
  have l0: "logOK (tasks s) (log s)" using assms(1) by (simp add: managerInv_def)
  have r0: "runOK (tasks s) (log s)" using assms(1) by (simp add: managerInv_def)
  have "logOK (tasks ?s') (log s)" using l0 by (rule logOK_mono) (simp add: ts)
  then have 2: "logOK (tasks ?s') (log ?s')" unfolding lg by (rule logOK_append) (simp add: ts)
  have 3: "published ?s' = replay [] (log ?s')" by (simp add: pb lg replay_append)
  have 4: "runOK (tasks ?s') (log ?s')" unfolding ts lg using l0 r0 by (rule runOK_start)
  have "histOK (log s)" using assms(1) by (simp add: managerInv_def)
  then have 5: "histOK (log ?s')" unfolding lg by (rule histOK_append) simp
  show ?thesis using 1 2 3 4 5 by (simp add: managerInv_def)
qed

lemma inv_runCargo:
  assumes "managerInv s"
  shows "managerInv (runCargo e c a f s)"
proof (cases "currentTask s")
  case None
  show ?thesis
  proof (cases "cwd e")
    case (Inl err)
    have "runCargo e c a f s = s\<lparr>errorMessages := errorMessages s @ [message err]\<rparr>"
      using None Inl by (simp add: runCargo_def)
    then show ?thesis using inv_cong[OF assms] by simp
  next
    case (Inr dir)
    have "runCargo e c a f s = runCargoWithCwd e c (arrays s ! a) dir s"
      using None Inr by (simp add: runCargo_def)
    then show ?thesis using inv_runCargoWithCwd[OF assms None] by simp
  qed
next
  case (Some t)
  show ?thesis
  proof (cases f)
    case True
    have "runCargo e c a f s = (kill t s)\<lparr>pending := pending s @ [(t, c, a, f)]\<rparr>"
      using Some True by (simp add: runCargo_def)
    moreover have "managerInv (kill t s)"
      using inv_kill[OF assms inv_slot_bound[OF assms Some]] .
    ultimately show ?thesis using inv_cong[of "kill t s"] by simp
  next
    case False
    then show ?thesis using Some assms by (simp add: runCargo_def)
  qed
qed

lemma inv_spawn_other:
  assumes "managerInv s" "k \<noteq> CargoTask"
  shows "managerInv (execute (length (tasks s)) (addTask (newTask k a d) s))"
proof (rule inv_append[OF assms(1), where new = "[Execute (length (tasks s))]"])
  show "slotOK (currentTask s) (tasks (execute (length (tasks s)) (addTask (newTask k a d) s)))"
    using assms by (simp add: execute_def addTask_def managerInv_def slotOK_add_other)
  show "runOK (tasks (execute (length (tasks s)) (addTask (newTask k a d) s))) (log s)"
    using assms by (simp add: execute_def addTask_def managerInv_def runOK_add_other)
qed (simp_all add: execute_def addTask_def)

lemma inv_invokeCargoCheckWithArgs: "managerInv s \<Longrightarrow> managerInv (invokeCargoCheckWithArgs args s)"
  unfolding invokeCargoCheckWithArgs_def Let_def by (rule inv_spawn_other) simp_all

lemma inv_channel: "managerInv s \<Longrightarrow> managerInv (s\<lparr>channel := x, channelShown := y\<rparr>)"
  by (erule inv_cong) simp_all

lemma inv_invokeCargoNew:
  assumes "managerInv s"
  shows "managerInv (invokeCargoNew e projectName isBin dir s)"
proof -
  let ?s2 = "s\<lparr>channel := [], channelShown := (showOutput e \<or> channelShown s)\<rparr>"
  have "invokeCargoNew e projectName isBin dir s =
      execute (length (tasks ?s2)) (addTask (newTask Scaffold
        [''new'', projectName, if isBin then ''--bin'' else ''--lib''] dir) ?s2)"
    by (simp add: invokeCargoNew_def Let_def channelClear_def channelShow_def)
  then show ?thesis using inv_spawn_other[OF inv_channel[OF assms], of Scaffold] by simp
qed

lemma inv_invokeCargoInit:
  assumes "managerInv s"
  shows "managerInv (invokeCargoInit e crateType name dir s)"
proof -
  let ?s2 = "s\<lparr>channel := [], channelShown := (showOutput e \<or> channelShown s)\<rparr>"
  have "invokeCargoInit e crateType name dir s =
      execute (length (tasks ?s2)) (addTask (newTask Scaffold
        ([''init'', ''--name'', name] @
           (case crateType of Application \<Rightarrow> [''--bin''] | Library \<Rightarrow> [''--lib''])) dir) ?s2)"
    by (simp add: invokeCargoInit_def Let_def channelClear_def channelShow_def)
  then show ?thesis using inv_spawn_other[OF inv_channel[OF assms], of Scaffold] by simp
qed

lemma inv_stopTask: "managerInv s \<Longrightarrow> managerInv (stopTask s)"
  by (cases "currentTask s") (simp_all add: stopTask_def inv_kill inv_slot_bound)

lemma inv_setDiagnosticPublishingEnabled: "managerInv s \<Longrightarrow> managerInv (setDiagnosticPublishingEnabled b s)"
  unfolding setDiagnosticPublishingEnabled_def by (erule inv_cong) simp_all

lemma inv_newArray: "managerInv s \<Longrightarrow> managerInv (newArray xs s)"
  unfolding newArray_def by (erule inv_cong) simp_all

lemma inv_push: "managerInv s \<Longrightarrow> managerInv (push a xs s)"
  unfolding push_def by (erule inv_cong) simp_all

lemma inv_killResolved:
  assumes "managerInv s"
  shows "managerInv (killResolved e i s)"
proof (cases "i < length (pending s)")
  case True
  obtain t c a f where p: "pending s ! i = (t, c, a, f)" by (cases "pending s ! i") auto
  have "managerInv (s\<lparr>pending := take i (pending s) @ drop (Suc i) (pending s)\<rparr>)"
    using assms by (rule inv_cong) simp_all
  then show ?thesis using True p by (simp add: killResolved_def inv_runCargo)
next
  case False
  then show ?thesis using assms by (simp add: killResolved_def)
qed

lemma inv_taskStarted:
  assumes "managerInv s"
  shows "managerInv (taskStarted t now s)"
proof (cases "t < length (tasks s) \<and> tstate (tasks s ! t) = Created")
  case True
  let ?ts = "tasks s"
  have so: "slotOK (currentTask s) ?ts" using assms by (simp add: managerInv_def)
  show ?thesis
  proof (cases "tkind (?ts ! t) = CargoTask")
    case c: True
    let ?x = "(?ts ! t)\<lparr>tstate := Running, startTime := Some now\<rparr>"
    show ?thesis
    proof (rule inv_tasks_upd[OF assms, where t = t and x = ?x])
      show "slotOK (currentTask s) (?ts[t := ?x])"
        using so True by (intro slotOK_running) simp_all
    qed (simp_all add: taskStarted_def True c onStarted_def setState_def channelClear_def
          channelAppend_def Let_def)
  next
    case c: False
    let ?x = "(?ts ! t)\<lparr>tstate := Running\<rparr>"
    show ?thesis
    proof (rule inv_tasks_upd[OF assms, where t = t and x = ?x])
      show "slotOK (currentTask s) (?ts[t := ?x])"
        using so True by (intro slotOK_running) simp_all
    qed (use c in \<open>simp_all add: taskStarted_def True setState_def Let_def split: task_kind.splits\<close>)
  qed
next
  case False
  then show ?thesis using assms by (auto simp add: taskStarted_def)
qed

lemma inv_taskStderr: "managerInv s \<Longrightarrow> managerInv (taskStderr t line s)"
  by (erule inv_cong)
    (simp_all add: taskStderr_def onLineReceivedInStderr_def channelAppend_def split: task_kind.splits)

lemma publish_fold:
  "foldl (\<lambda>s' d. if diagnosticPublishingEnabled s'
                   then publishDiagnostic t d (tcwd (tasks s' ! t)) s' else s') s ds =
   (if diagnosticPublishingEnabled s then
      s\<lparr>published := replay (published s) (map (\<lambda>d. PublishDiagnostic t d (tcwd (tasks s ! t))) ds),
        log := log s @ map (\<lambda>d. PublishDiagnostic t d (tcwd (tasks s ! t))) ds\<rparr>
    else s)"
  by (induction ds arbitrary: s) (simp_all add: publishDiagnostic_def)

lemma onLineReceivedInStdout_eq:
  "onLineReceivedInStdout e t line s =
   (if startsWithBrace line then
      (if diagnosticPublishingEnabled s then
         s\<lparr>published := replay (published s)
              (map (\<lambda>d. PublishDiagnostic t d (tcwd (tasks s ! t))) (parseLine e line)),
           log := log s @ ParseLine t line #
              map (\<lambda>d. PublishDiagnostic t d (tcwd (tasks s ! t))) (parseLine e line)\<rparr>
       else s\<lparr>log := log s @ [ParseLine t line]\<rparr>)
    else s\<lparr>channel := channel s @ [Text (line @ [CHR 0x0A])]\<rparr>)"
  by (simp add: onLineReceivedInStdout_def publish_fold channelAppend_def Let_def)

lemma inv_onLineReceivedInStdout:
  assumes "managerInv s" "t < length (tasks s)" "tkind (tasks s ! t) = CargoTask"
  shows "managerInv (onLineReceivedInStdout e t line s)"
proof -
  let ?pubs = "map (\<lambda>d. PublishDiagnostic t d (tcwd (tasks s ! t))) (parseLine e line)"
  have so: "slotOK (currentTask s) (tasks s)" "runOK (tasks s) (log s)"
    using assms(1) by (simp_all add: managerInv_def)
  consider (json_on) "startsWithBrace line" "diagnosticPublishingEnabled s"
    | (json_off) "startsWithBrace line" "\<not> diagnosticPublishingEnabled s"
    | (plain) "\<not> startsWithBrace line" by blast
  then show ?thesis
  proof cases
    case json_on
    show ?thesis
      by (rule inv_append[OF assms(1), where new = "ParseLine t line # ?pubs"])
        (auto simp add: onLineReceivedInStdout_eq json_on so assms(2,3))
  next
    case json_off
    show ?thesis
      by (rule inv_append[OF assms(1), where new = "[ParseLine t line]"])
        (simp_all add: onLineReceivedInStdout_eq json_off so assms(2))
  next
    case plain
    show ?thesis
      by (rule inv_cong[OF assms(1)]) (simp_all add: onLineReceivedInStdout_eq plain)
  qed
qed

lemma inv_taskStdout:
  assumes "managerInv s"
  shows "managerInv (taskStdout e t line s)"
proof (cases "t < length (tasks s)")
  case True
  show ?thesis
  proof (cases "tkind (tasks s ! t)")
    case CargoTask
    then show ?thesis
      using True assms by (simp add: taskStdout_def inv_onLineReceivedInStdout)
  next
    case (AvailabilityProbe x)
    then show ?thesis using True assms by (simp add: taskStdout_def)
  next
    case Scaffold
    have "managerInv (s\<lparr>channel := channel s @ [Text (line @ [CHR 0x0A])]\<rparr>)"
      using assms by (rule inv_cong) simp_all
    then show ?thesis using True Scaffold by (simp add: taskStdout_def channelAppend_def)
  qed
next
  case False
  then show ?thesis using assms by (simp add: taskStdout_def)
qed

lemma not_live_endState: "tstate x = endState out \<Longrightarrow> \<not> live x"
  by (simp add: live_def endState_def split: outcome.splits option.splits)

lemma inv_end_cargo:
  assumes "managerInv s" "t < length (tasks s)" "live (tasks s ! t)" "tkind (tasks s ! t) = CargoTask"
    "currentTask s' = None" "log s' = log s" "published s' = published s"
    "tasks s' = (tasks s)[t := x]" "\<not> live x" "tkind x = tkind (tasks s ! t)"
  shows "managerInv s'"
proof -
  have "slotOK (currentTask s) (tasks s)" using assms(1) by (simp add: managerInv_def)
  then have 1: "slotOK None ((tasks s)[t := x])"
    using assms(2,4,3,9) by (rule slotOK_end_cargo)
  have 2: "logOK ((tasks s)[t := x]) (log s)"
    using assms(1) unfolding managerInv_def logOK_def by simp
  have 3: "runOK ((tasks s)[t := x]) (log s)"
    using assms(1,10) by (simp add: managerInv_def runOK_upd)
  show ?thesis using 1 2 3 assms(1) by (simp add: managerInv_def assms(5-8))
qed

lemma inv_setState_other:
  assumes "managerInv s" "t < length (tasks s)" "tkind (tasks s ! t) \<noteq> CargoTask"
  shows "managerInv (setState t st s)"
proof (rule inv_tasks_upd[OF assms(1), where t = t and x = "(tasks s ! t)\<lparr>tstate := st\<rparr>"])
  have "slotOK (currentTask s) (tasks s)" using assms(1) by (simp add: managerInv_def)
  then show "slotOK (currentTask s) ((tasks s)[t := (tasks s ! t)\<lparr>tstate := st\<rparr>])"
    using assms(2,3) by (rule slotOK_end_other) simp
qed (simp_all add: setState_def)

lemma inv_taskEnded:
  assumes "managerInv s"
  shows "managerInv (taskEnded e t out now s)"
proof (cases "t < length (tasks s) \<and> live (tasks s ! t)")
  case True
  show ?thesis
  proof (cases "tkind (tasks s ! t)")
    case CargoTask
    show ?thesis
    proof (rule inv_end_cargo[OF assms, where t = t and x = "(tasks s ! t)\<lparr>tstate := endState out\<rparr>"])
      show "\<not> live ((tasks s ! t)\<lparr>tstate := endState out\<rparr>)"
        by (rule not_live_endState) simp
    qed (use True CargoTask in \<open>simp_all add: taskEnded_def setState_def onGracefullyEnded_def
          onUnexpectedlyEnded_def channelAppend_def Let_def split: outcome.splits option.splits\<close>)
  next
    case (AvailabilityProbe args)
    then have i: "managerInv (setState t (endState out) s)"
      using True assms by (intro inv_setState_other) simp_all
    show ?thesis
    proof (cases out)
      case (Resolved c)
      have "managerInv (checkAvailabilityThen e c args (setState t (endState out) s))"
        using i by (simp add: checkAvailabilityThen_def inv_runCargo inv_push)
      then show ?thesis
        using True AvailabilityProbe Resolved by (simp add: taskEnded_def Let_def)
    next
      case (Rejected err)
      then show ?thesis using True AvailabilityProbe i by (simp add: taskEnded_def)
    qed
  next
    case Scaffold
    then have "managerInv (setState t (endState out) s)"
      using True assms by (intro inv_setState_other) simp_all
    then show ?thesis using True Scaffold by (simp add: taskEnded_def)
  qed
next
  case False
  then show ?thesis using assms by (auto simp add: taskEnded_def)
qed

lemma inv_init: "managerInv init"
  by (simp add: managerInv_def init_def slotOK_def logOK_def runOK_def histOK_def)

lemma inv_step: "managerInv s \<Longrightarrow> managerInv (step e ev s)"
  by (cases ev)
    (simp_all add: inv_runCargo inv_invokeCargoCheckWithArgs inv_invokeCargoNew inv_invokeCargoInit
      inv_stopTask inv_setDiagnosticPublishingEnabled inv_taskStarted inv_taskStdout
      inv_taskStderr inv_taskEnded inv_killResolved inv_newArray)

lemma inv_exec: "managerInv (exec evs)"
proof (induction evs rule: rev_induct)
  case Nil
  show ?case by (simp add: exec_def inv_init)
next
  case (snoc x xs)
  obtain e ev where x: "x = (e, ev)" by (cases x)
  have "exec (xs @ [x]) = step e ev (exec xs)" by (simp add: exec_def x)
  then show ?case using snoc inv_step by simp
qed


section \<open>Example executions, evaluated\<close>

lemma exec_append: "exec (xs @ ys) = foldl (\<lambda>s (e, ev). step e ev s) (exec xs) ys"
  by (simp add: exec_def)

lemma exec_buildRunning:
  "exec buildRunning =
     \<lparr>currentTask = Some 0, diagnosticPublishingEnabled = True,
      channel = [Text (''Started cargo build --message-format json'' @ [CHR 0x0A])],
      channelShown = False, statusBarShown = True, published = [],
      tasks = [\<lparr>targs = [''build'', ''--message-format'', ''json''], tcwd = ''/w'',
                tkind = CargoTask, tstate = Running, interrupted = False, startTime = Some 1\<rparr>],
      pending = [], arrays = [[]], errorMessages = [], informationMessages = [],
      log = [ClearDiagnostics, Execute 0]\<rparr>"
  by (simp add: exec_def buildRunning_def init_def exampleEnv_def newArray_def runCargo_def
      runCargoWithCwd_def Let_def clearDiagnostics_def addTask_def execute_def newTask_def
      cargoArgs_def jsonCommands_def taskStarted_def setState_def onStarted_def channelClear_def
      channelAppend_def)

lemma exec_forcedRestart:
  "exec forcedRestart =
     \<lparr>currentTask = Some 0, diagnosticPublishingEnabled = True,
      channel = [Text (''Started cargo build --message-format json'' @ [CHR 0x0A])],
      channelShown = False, statusBarShown = True, published = [],
      tasks = [\<lparr>targs = [''build'', ''--message-format'', ''json''], tcwd = ''/w'',
                tkind = CargoTask, tstate = Running, interrupted = True, startTime = Some 1\<rparr>],
      pending = [(0, ''test'', 0, True)], arrays = [[]], errorMessages = [],
      informationMessages = [], log = [ClearDiagnostics, Execute 0, Kill 0]\<rparr>"
  unfolding forcedRestart_def exec_append exec_buildRunning
  by (simp add: exampleEnv_def runCargo_def kill_def)

lemma exec_lineAfterKill:
  "exec lineAfterKill =
     \<lparr>currentTask = Some 0, diagnosticPublishingEnabled = True,
      channel = [Text (''Started cargo build --message-format json'' @ [CHR 0x0A])],
      channelShown = False, statusBarShown = True,
      published = [(''/w/src/lib.rs'', [diagA])],
      tasks = [\<lparr>targs = [''build'', ''--message-format'', ''json''], tcwd = ''/w'',
                tkind = CargoTask, tstate = Running, interrupted = True, startTime = Some 1\<rparr>],
      pending = [(0, ''test'', 0, True)], arrays = [[]], errorMessages = [],
      informationMessages = [],
      log = [ClearDiagnostics, Execute 0, Kill 0, ParseLine 0 ''{a}'',
             PublishDiagnostic 0 diagA ''/w'']\<rparr>"
  unfolding lineAfterKill_def exec_append exec_forcedRestart
  by (simp add: exampleEnv_def exampleParse_def taskStdout_def onLineReceivedInStdout_def
      startsWithBrace_def publishDiagnostic_def resolvePath_def diagA_def Let_def)

lemma exec_restarted:
  "exec restarted =
     \<lparr>currentTask = Some 1, diagnosticPublishingEnabled = True,
      channel = [Text (''Started cargo build --message-format json'' @ [CHR 0x0A])],
      channelShown = False, statusBarShown = True, published = [],
      tasks = [\<lparr>targs = [''build'', ''--message-format'', ''json''], tcwd = ''/w'',
                tkind = CargoTask, tstate = Killed, interrupted = True, startTime = Some 1\<rparr>,
               \<lparr>targs = [''test'', ''--message-format'', ''json''], tcwd = ''/w'',
                tkind = CargoTask, tstate = Created, interrupted = False, startTime = None\<rparr>],
      pending = [], arrays = [[]], errorMessages = [], informationMessages = [],
      log = [ClearDiagnostics, Execute 0, Kill 0, ClearDiagnostics, Execute 1]\<rparr>"
  unfolding restarted_def exec_append exec_forcedRestart
  by (simp add: exampleEnv_def runCargo_def runCargoWithCwd_def taskEnded_def live_def
      setState_def endState_def onUnexpectedlyEnded_def killResolved_def clearDiagnostics_def
      addTask_def execute_def newTask_def cargoArgs_def jsonCommands_def Let_def)

lemma exec_lateLine:
  "exec lateLine =
     \<lparr>currentTask = Some 1, diagnosticPublishingEnabled = True,
      channel = [Text (''Started cargo build --message-format json'' @ [CHR 0x0A])],
      channelShown = False, statusBarShown = True,
      published = [(''/w/src/lib.rs'', [diagLate])],
      tasks = [\<lparr>targs = [''build'', ''--message-format'', ''json''], tcwd = ''/w'',
                tkind = CargoTask, tstate = Killed, interrupted = True, startTime = Some 1\<rparr>,
               \<lparr>targs = [''test'', ''--message-format'', ''json''], tcwd = ''/w'',
                tkind = CargoTask, tstate = Created, interrupted = False, startTime = None\<rparr>],
      pending = [], arrays = [[]], errorMessages = [], informationMessages = [],
      log = [ClearDiagnostics, Execute 0, Kill 0, ClearDiagnostics, Execute 1,
             ParseLine 0 ''{late}'', PublishDiagnostic 0 diagLate ''/w'']\<rparr>"
  unfolding lateLine_def exec_append exec_restarted
  by (simp add: exampleEnv_def exampleParse_def taskStdout_def onLineReceivedInStdout_def
      startsWithBrace_def publishDiagnostic_def resolvePath_def diagLate_def Let_def)

lemma exec_buildAndProbe:
  "exec buildAndProbe =
     \<lparr>currentTask = Some 0, diagnosticPublishingEnabled = True,
      channel = [Text (''Started cargo build --message-format json'' @ [CHR 0x0A])],
      channelShown = False, statusBarShown = True, published = [],
      tasks = [\<lparr>targs = [''build'', ''--message-format'', ''json''], tcwd = ''/w'',
                tkind = CargoTask, tstate = Running, interrupted = False, startTime = Some 1\<rparr>,
               \<lparr>targs = [''check'', ''--help''], tcwd = ''/'',
                tkind = AvailabilityProbe 1, tstate = Running, interrupted = False,
                startTime = None\<rparr>],
      pending = [], arrays = [[], [''--lib'']], errorMessages = [], informationMessages = [],
      log = [ClearDiagnostics, Execute 0, Execute 1]\<rparr>"
  unfolding buildAndProbe_def exec_append exec_buildRunning
  by (simp add: exampleEnv_def newArray_def invokeCargoCheckWithArgs_def addTask_def execute_def
      newTask_def taskStarted_def setState_def Let_def)

lemma exec_twoChecks:
  "tasks (exec twoChecks) =
     [\<lparr>targs = [''check'', ''--help''], tcwd = ''/'', tkind = AvailabilityProbe 0,
       tstate = Completed 101, interrupted = False, startTime = None\<rparr>,
      \<lparr>targs = [''check'', ''--help''], tcwd = ''/'', tkind = AvailabilityProbe 0,
       tstate = Completed 101, interrupted = False, startTime = None\<rparr>,
      \<lparr>targs = [''rustc'', ''--lib'', ''--'', ''-Zno-trans''], tcwd = ''/w'',
       tkind = CargoTask, tstate = Completed 101, interrupted = False, startTime = Some 4\<rparr>,
      \<lparr>targs = [''rustc'', ''--lib'', ''--'', ''-Zno-trans'', ''--'', ''-Zno-trans''],
       tcwd = ''/w'', tkind = CargoTask, tstate = Created, interrupted = False,
       startTime = None\<rparr>] \<and>
   arrays (exec twoChecks) = [[''--lib'', ''--'', ''-Zno-trans'', ''--'', ''-Zno-trans'']]"
  by (simp add: exec_def twoChecks_def init_def exampleEnv_def newArray_def
      invokeCargoCheckWithArgs_def addTask_def execute_def newTask_def taskEnded_def live_def
      setState_def endState_def checkAvailabilityThen_def push_def runCargo_def
      runCargoWithCwd_def clearDiagnostics_def cargoArgs_def jsonCommands_def taskStarted_def
      onStarted_def channelClear_def channelAppend_def onGracefullyEnded_def Let_def)


section \<open>The claims\<close>

subsection \<open>What every execution satisfies\<close>

lemma inv_exec_parts:
  "published (exec evs) = replay [] (log (exec evs))"
  "histOK (log (exec evs))"
  using inv_exec[of evs] by (simp_all add: managerInv_def)

lemma slotOK_exec: "slotOK (currentTask (exec evs)) (tasks (exec evs))"
  using inv_exec[of evs] by (simp add: managerInv_def)

lemma replay_publishes:
  "replay ps (map (\<lambda>d. PublishDiagnostic t d dir) ds) =
   foldl (\<lambda>qs d. appendFor (resolvePath dir (filePath d)) d qs) ps ds"
  by (induction ds arbitrary: ps) simp_all

lemma runCargoWithCwd_effects:
  "log (runCargoWithCwd e command args dir s) =
     log s @ [ClearDiagnostics, Execute (length (tasks s))]"
  "published (runCargoWithCwd e command args dir s) = []"
  "currentTask (runCargoWithCwd e command args dir s) = Some (length (tasks s))"
  by (simp_all add: runCargoWithCwd_def Let_def clearDiagnostics_def channelShow_def addTask_def
      execute_def)

lemma filter_at_most_one:
  assumes "\<forall>i<length xs. P (xs ! i) \<longrightarrow> c = Some i"
  shows "length (filter P xs) \<le> 1"
proof -
  let ?S = "{i. i < length xs \<and> P (xs ! i)}"
  have f: "finite ?S" by simp
  have "\<forall>a\<in>?S. \<forall>b\<in>?S. a = b" using assms by auto
  then have "card ?S \<le> Suc 0" using f by (simp add: card_le_Suc0_iff_eq)
  then show ?thesis by (simp add: length_filter_conv_card)
qed


lemma tasks_runCargoWithCwd:
  "tasks (runCargoWithCwd e command args dir s) =
   tasks s @ [newTask CargoTask (cargoArgs command args) dir]"
  by (simp add: runCargoWithCwd_def Let_def clearDiagnostics_def channelShow_def addTask_def
      execute_def)

subsection \<open>Forced restart and single flight\<close>

text \<open>
  Claim C1, as amended. With \<open>force\<close> and an occupied slot, \<^verbatim>\<open>runCargo\<close> kills the
  current task A and suspends; no task is created. When the awaited kill resolves, the
  same call is issued again: with the slot empty it clears the published set and creates
  and executes the task of B; with the slot still occupied it kills and suspends again.
  So while B is in the slot, every other task of \<^verbatim>\<open>runCargoWithCwd\<close> has ended.
  The lines are not kept apart: the stdout callback checks neither the task a line comes
  from nor whether its kill was requested. Every line of such a task that begins with a
  brace, whatever the state of the task, is passed to the parser, and when publishing is
  enabled each diagnostic of the line is published, that is, appended to the published
  set. This holds after the kill of A was requested and after the clear of B as well.
\<close>

theorem C1_forced_restart:
  "(currentTask s = Some a \<longrightarrow>
      runCargo e command args True s =
      (kill a s)\<lparr>pending := pending s @ [(a, command, args, True)]\<rparr>) \<and>
   (i < length (pending s') \<and> pending s' ! i = (a', command', args', force) \<and>
    currentTask s' = None \<and> cwd e = Inr dir \<longrightarrow>
      killResolved e i s' =
      runCargoWithCwd e command' (arrays s' ! args') dir
        (s'\<lparr>pending := take i (pending s') @ drop (Suc i) (pending s')\<rparr>) \<and>
      log (killResolved e i s') = log s' @ [ClearDiagnostics, Execute (length (tasks s'))] \<and>
      currentTask (killResolved e i s') = Some (length (tasks s')) \<and>
      published (killResolved e i s') = []) \<and>
   (i < length (pending s') \<and> pending s' ! i = (a', command', args', True) \<and>
    currentTask s' = Some c \<longrightarrow>
      killResolved e i s' =
      (kill c s')\<lparr>pending := take i (pending s') @ drop (Suc i) (pending s') @
                     [(c, command', args', True)]\<rparr>) \<and>
   (t < length (tasks s'') \<and> tkind (tasks s'' ! t) = CargoTask \<and> startsWithBrace line \<longrightarrow>
      taskStdout e t line s'' =
      (if diagnosticPublishingEnabled s'' then
         s''\<lparr>published :=
               foldl (\<lambda>ps d. appendFor (resolvePath (tcwd (tasks s'' ! t)) (filePath d)) d ps)
                 (published s'') (parseLine e line),
             log := log s'' @ ParseLine t line #
               map (\<lambda>d. PublishDiagnostic t d (tcwd (tasks s'' ! t))) (parseLine e line)\<rparr>
       else s''\<lparr>log := log s'' @ [ParseLine t line]\<rparr>)) \<and>
   (currentTask (exec evs) = Some b \<longrightarrow>
      (\<forall>u<length (tasks (exec evs)).
          u \<noteq> b \<and> tkind (tasks (exec evs) ! u) = CargoTask \<longrightarrow> \<not> live (tasks (exec evs) ! u)))"
proof (intro conjI impI)
  assume "currentTask s = Some a"
  then show "runCargo e command args True s =
      (kill a s)\<lparr>pending := pending s @ [(a, command, args, True)]\<rparr>"
    by (simp add: runCargo_def)
next
  assume h: "i < length (pending s') \<and> pending s' ! i = (a', command', args', force) \<and>
    currentTask s' = None \<and> cwd e = Inr dir"
  then show k: "killResolved e i s' =
      runCargoWithCwd e command' (arrays s' ! args') dir
        (s'\<lparr>pending := take i (pending s') @ drop (Suc i) (pending s')\<rparr>)"
    by (simp add: killResolved_def runCargo_def)
  show "log (killResolved e i s') = log s' @ [ClearDiagnostics, Execute (length (tasks s'))]"
    unfolding k by (simp add: runCargoWithCwd_effects)
  show "currentTask (killResolved e i s') = Some (length (tasks s'))"
    unfolding k by (simp add: runCargoWithCwd_effects)
  show "published (killResolved e i s') = []"
    unfolding k by (simp add: runCargoWithCwd_effects)
next
  assume "i < length (pending s') \<and> pending s' ! i = (a', command', args', True) \<and>
    currentTask s' = Some c"
  then show "killResolved e i s' =
      (kill c s')\<lparr>pending := take i (pending s') @ drop (Suc i) (pending s') @
                     [(c, command', args', True)]\<rparr>"
    by (simp add: killResolved_def runCargo_def kill_def)
next
  assume "t < length (tasks s'') \<and> tkind (tasks s'' ! t) = CargoTask \<and> startsWithBrace line"
  then show "taskStdout e t line s'' =
      (if diagnosticPublishingEnabled s'' then
         s''\<lparr>published :=
               foldl (\<lambda>ps d. appendFor (resolvePath (tcwd (tasks s'' ! t)) (filePath d)) d ps)
                 (published s'') (parseLine e line),
             log := log s'' @ ParseLine t line #
               map (\<lambda>d. PublishDiagnostic t d (tcwd (tasks s'' ! t))) (parseLine e line)\<rparr>
       else s''\<lparr>log := log s'' @ [ParseLine t line]\<rparr>)"
    by (simp add: taskStdout_def onLineReceivedInStdout_eq replay_publishes)
next
  assume c: "currentTask (exec evs) = Some b"
  show "\<forall>u<length (tasks (exec evs)).
          u \<noteq> b \<and> tkind (tasks (exec evs) ! u) = CargoTask \<longrightarrow> \<not> live (tasks (exec evs) ! u)"
    using slotOK_exec[of evs] c unfolding slotOK_def by auto
qed

theorem C1_forced_restart_witness:
  "currentTask (exec buildRunning) = Some 0 \<and>
   runCargo exampleEnv ''test'' 0 True (exec buildRunning) =
     (kill 0 (exec buildRunning))\<lparr>pending := [(0, ''test'', 0, True)]\<rparr> \<and>
   pending (exec forcedRestart) ! 0 = (0, ''test'', 0, True) \<and>
   currentTask (exec forcedRestart) = Some 0 \<and>
   killResolved exampleEnv 0 (exec forcedRestart) =
     (kill 0 (exec forcedRestart))\<lparr>pending := [(0, ''test'', 0, True)]\<rparr> \<and>
   currentTask (taskEnded exampleEnv 0 (Rejected None) 5 (exec forcedRestart)) = None \<and>
   cwd exampleEnv = Inr ''/w'' \<and>
   log (killResolved exampleEnv 0 (taskEnded exampleEnv 0 (Rejected None) 5 (exec forcedRestart))) =
     [ClearDiagnostics, Execute 0, Kill 0, ClearDiagnostics, Execute 1] \<and>
   tstate (tasks (exec restarted) ! 0) = Killed \<and> interrupted (tasks (exec restarted) ! 0) \<and>
   tkind (tasks (exec restarted) ! 0) = CargoTask \<and> startsWithBrace ''{late}'' \<and>
   diagnosticPublishingEnabled (exec restarted) \<and>
   taskStdout exampleEnv 0 ''{late}'' (exec restarted) =
     (exec restarted)
       \<lparr>published := [(''/w/src/lib.rs'', [diagLate])],
        log := [ClearDiagnostics, Execute 0, Kill 0, ClearDiagnostics, Execute 1,
                ParseLine 0 ''{late}'', PublishDiagnostic 0 diagLate ''/w'']\<rparr> \<and>
   currentTask (exec restarted) = Some 1 \<and> \<not> live (tasks (exec restarted) ! 0)"
proof -
  let ?ended = "taskEnded exampleEnv 0 (Rejected None) 5 (exec forcedRestart)"
  have 1: "currentTask (exec buildRunning) = Some 0" "pending (exec buildRunning) = []"
    by (simp_all add: exec_buildRunning)
  have 2: "0 < length (pending (exec forcedRestart))"
    "pending (exec forcedRestart) ! 0 = (0, ''test'', 0, True)"
    "currentTask (exec forcedRestart) = Some 0"
    "take 0 (pending (exec forcedRestart)) @ drop (Suc 0) (pending (exec forcedRestart)) = []"
    by (simp_all add: exec_forcedRestart)
  have 3: "0 < length (pending ?ended)" "pending ?ended ! 0 = (0, ''test'', 0, True)"
    "currentTask ?ended = None" "cwd exampleEnv = Inr ''/w''"
    "log ?ended = [ClearDiagnostics, Execute 0, Kill 0]" "length (tasks ?ended) = 1"
    by (simp_all add: exec_forcedRestart taskEnded_def live_def setState_def endState_def
        onUnexpectedlyEnded_def exampleEnv_def)
  have 4: "0 < length (tasks (exec restarted))" "tstate (tasks (exec restarted) ! 0) = Killed"
    "interrupted (tasks (exec restarted) ! 0)" "tkind (tasks (exec restarted) ! 0) = CargoTask"
    "diagnosticPublishingEnabled (exec restarted)" "currentTask (exec restarted) = Some 1"
    "tcwd (tasks (exec restarted) ! 0) = ''/w''" "published (exec restarted) = []"
    "log (exec restarted) = [ClearDiagnostics, Execute 0, Kill 0, ClearDiagnostics, Execute 1]"
    by (simp_all add: exec_restarted)
  have 5: "startsWithBrace ''{late}''" "parseLine exampleEnv ''{late}'' = [diagLate]"
    "resolvePath ''/w'' (filePath diagLate) = ''/w/src/lib.rs''"
    by (simp_all add: startsWithBrace_def exampleEnv_def exampleParse_def diagLate_def
        resolvePath_def)
  note th = C1_forced_restart[of "exec buildRunning" 0 exampleEnv "''test''" 0]
  have "runCargo exampleEnv ''test'' 0 True (exec buildRunning) =
     (kill 0 (exec buildRunning))
       \<lparr>pending := pending (exec buildRunning) @ [(0, ''test'', 0, True)]\<rparr>"
    using th 1(1) by blast
  then have a: "runCargo exampleEnv ''test'' 0 True (exec buildRunning) =
     (kill 0 (exec buildRunning))\<lparr>pending := [(0, ''test'', 0, True)]\<rparr>"
    using 1(2) by simp
  have "killResolved exampleEnv 0 (exec forcedRestart) =
     (kill 0 (exec forcedRestart))
       \<lparr>pending := take 0 (pending (exec forcedRestart)) @
          drop (Suc 0) (pending (exec forcedRestart)) @ [(0, ''test'', 0, True)]\<rparr>"
    using C1_forced_restart[of _ _ exampleEnv _ _ 0 "exec forcedRestart" 0 "''test''" 0 _ _ 0] 2(1-3)
    by blast
  then have b: "killResolved exampleEnv 0 (exec forcedRestart) =
     (kill 0 (exec forcedRestart))\<lparr>pending := [(0, ''test'', 0, True)]\<rparr>"
    using 2(4) by simp
  have "log (killResolved exampleEnv 0 ?ended) =
     log ?ended @ [ClearDiagnostics, Execute (length (tasks ?ended))]"
    using C1_forced_restart[of _ _ exampleEnv _ _ 0 ?ended 0 "''test''" 0 True "''/w''"] 3(1-4)
    by blast
  then have c: "log (killResolved exampleEnv 0 ?ended) =
     [ClearDiagnostics, Execute 0, Kill 0, ClearDiagnostics, Execute 1]"
    using 3(5,6) by simp
  have "taskStdout exampleEnv 0 ''{late}'' (exec restarted) =
     (if diagnosticPublishingEnabled (exec restarted) then
        (exec restarted)
          \<lparr>published :=
             foldl (\<lambda>ps d. appendFor (resolvePath (tcwd (tasks (exec restarted) ! 0)) (filePath d)) d ps)
               (published (exec restarted)) (parseLine exampleEnv ''{late}''),
           log := log (exec restarted) @ ParseLine 0 ''{late}'' #
             map (\<lambda>d. PublishDiagnostic 0 d (tcwd (tasks (exec restarted) ! 0)))
               (parseLine exampleEnv ''{late}'')\<rparr>
      else (exec restarted)\<lparr>log := log (exec restarted) @ [ParseLine 0 ''{late}'']\<rparr>)"
    using C1_forced_restart[where e = exampleEnv and t = 0 and s'' = "exec restarted"
        and line = "''{late}''"] 4(1,4) 5(1)
    by blast
  then have d: "taskStdout exampleEnv 0 ''{late}'' (exec restarted) =
     (exec restarted)
       \<lparr>published := [(''/w/src/lib.rs'', [diagLate])],
        log := [ClearDiagnostics, Execute 0, Kill 0, ClearDiagnostics, Execute 1,
                ParseLine 0 ''{late}'', PublishDiagnostic 0 diagLate ''/w'']\<rparr>"
    using 4(5,7,8,9) 5(2,3) by simp
  have f: "\<not> live (tasks (exec restarted) ! 0)"
    using C1_forced_restart[where evs = restarted and b = 1] 4(1,4,6) by auto
  show ?thesis using 1(1) 2(2,3) 3(3,4) 4(2,3,4,5,6) 5(1) a b c d f by simp
qed

text \<open>A line of the build that arrives after the kill was requested is parsed and
  published.\<close>

theorem C1_counterexample:
  "Kill 0 \<in> set (log (exec forcedRestart)) \<and>
   ParseLine 0 ''{a}'' \<notin> set (log (exec forcedRestart)) \<and>
   log (exec lineAfterKill) =
     log (exec forcedRestart) @ [ParseLine 0 ''{a}'', PublishDiagnostic 0 diagA ''/w'']"
  by (simp add: exec_forcedRestart exec_lineAfterKill)

text \<open>
  Claim C2. A call of \<^verbatim>\<open>runCargo\<close> without \<open>force\<close> while the slot is occupied
  returns the state as it is: nothing is spawned and the slot is unchanged. In every
  execution the slot refers to an existing task, and a task of \<^verbatim>\<open>runCargoWithCwd\<close>
  is live (created and not ended) exactly when it is the one in the slot.
\<close>

theorem C2_single_flight:
  "(currentTask s \<noteq> None \<longrightarrow> runCargo e command args False s = s) \<and>
   (\<forall>i<length (tasks (exec evs)).
      (tkind (tasks (exec evs) ! i) = CargoTask \<and> live (tasks (exec evs) ! i)) =
      (currentTask (exec evs) = Some i)) \<and>
   (\<forall>t. currentTask (exec evs) = Some t \<longrightarrow> t < length (tasks (exec evs)))"
  using slotOK_exec[of evs] unfolding slotOK_def by (simp add: runCargo_def)

theorem C2_single_flight_witness:
  "currentTask (exec buildRunning) \<noteq> None \<and>
   runCargo exampleEnv ''test'' 0 False (exec buildRunning) = exec buildRunning \<and>
   0 < length (tasks (exec buildAndProbe)) \<and> currentTask (exec buildAndProbe) = Some 0 \<and>
   tkind (tasks (exec buildAndProbe) ! 0) = CargoTask \<and> live (tasks (exec buildAndProbe) ! 0)"
proof -
  note c = C2_single_flight[of "exec buildRunning" exampleEnv "''test''" 0 buildAndProbe]
  have 1: "currentTask (exec buildRunning) \<noteq> None" by (simp add: exec_buildRunning)
  have 2: "runCargo exampleEnv ''test'' 0 False (exec buildRunning) = exec buildRunning"
    using c 1 by blast
  have 3: "0 < length (tasks (exec buildAndProbe))" "currentTask (exec buildAndProbe) = Some 0"
    by (simp_all add: exec_buildAndProbe)
  have 4: "tkind (tasks (exec buildAndProbe) ! 0) = CargoTask \<and>
      live (tasks (exec buildAndProbe) ! 0)"
    using c 3 by blast
  show ?thesis using 1 2 3 4 by simp
qed

text \<open>
  Claim C5, as amended. The claim counts all tasks; the probe of
  \<^verbatim>\<open>checkCargoCheckAvailability\<close> and the tasks of \<^verbatim>\<open>invokeCargoNew\<close> and
  \<^verbatim>\<open>invokeCargoInit\<close> are created without looking at the slot and run beside the
  task in the slot. Among the tasks of \<^verbatim>\<open>runCargoWithCwd\<close>, at most one is live,
  hence at most one is running, at every point of every execution.
\<close>

theorem C5_one_cargo_task:
  "length (filter (\<lambda>t. tkind t = CargoTask \<and> live t) (tasks (exec evs))) \<le> 1 \<and>
   length (filter (\<lambda>t. tkind t = CargoTask \<and> tstate t = Running) (tasks (exec evs))) \<le> 1"
proof -
  let ?ts = "tasks (exec evs)"
  have s: "\<forall>i<length ?ts. (tkind (?ts ! i) = CargoTask \<and> live (?ts ! i)) = (currentTask (exec evs) = Some i)"
    using slotOK_exec[of evs] unfolding slotOK_def by blast
  have 1: "length (filter (\<lambda>t. tkind t = CargoTask \<and> live t) ?ts) \<le> 1"
    by (rule filter_at_most_one[where c = "currentTask (exec evs)"]) (use s in blast)
  have "\<forall>i<length ?ts. tkind (?ts ! i) = CargoTask \<and> tstate (?ts ! i) = Running \<longrightarrow>
      currentTask (exec evs) = Some i"
    using s by (auto simp add: live_def)
  then have 2: "length (filter (\<lambda>t. tkind t = CargoTask \<and> tstate t = Running) ?ts) \<le> 1"
    by (rule filter_at_most_one)
  show ?thesis using 1 2 by simp
qed


text \<open>The build and the availability probe run at the same time.\<close>

theorem C5_counterexample:
  "\<not> length (filter (\<lambda>t. tstate t = Running) (tasks (exec buildAndProbe))) \<le> 1"
  by (simp add: exec_buildAndProbe)

subsection \<open>Clearing before publishing\<close>

text \<open>
  Claim C4, as amended. \<^verbatim>\<open>runCargoWithCwd\<close> calls \<^verbatim>\<open>clearDiagnostics()\<close>
  before it creates and executes the task of the run, and the published set is empty
  when it returns. In the log of every execution, every \<^verbatim>\<open>publishDiagnostic\<close> call
  of a task comes after the \<^verbatim>\<open>clearDiagnostics()\<close> of that task's run, and the task
  made no call before that clear; the published set is what the publisher calls since
  the last clear produce. The set need not stay empty until the first diagnostic of the
  run: the stdout callback does not check which task a line comes from, and a line that
  an earlier task delivers after the clear is published into the set.
\<close>

theorem C4_clear_before_own_publish:
  "log (runCargoWithCwd e command args dir s) =
     log s @ [ClearDiagnostics, Execute (length (tasks s))] \<and>
   published (runCargoWithCwd e command args dir s) = [] \<and>
   published (exec evs) = replay [] (log (exec evs)) \<and>
   (log (exec evs) = xs @ PublishDiagnostic t d' dir' # ys \<longrightarrow>
      (\<exists>pre post. xs = pre @ ClearDiagnostics # Execute t # post \<and>
         (\<forall>ef\<in>set pre. effTask ef \<noteq> Some t)))"
proof (intro conjI impI)
  assume "log (exec evs) = xs @ PublishDiagnostic t d' dir' # ys"
  then have "startedIn t xs" using inv_exec_parts(2)[of evs] unfolding histOK_def by blast
  then show "\<exists>pre post. xs = pre @ ClearDiagnostics # Execute t # post \<and>
         (\<forall>ef\<in>set pre. effTask ef \<noteq> Some t)"
    unfolding startedIn_def by simp
qed (simp_all add: runCargoWithCwd_effects inv_exec_parts(1))

theorem C4_clear_before_own_publish_witness:
  "log (exec lineAfterKill) =
     [ClearDiagnostics, Execute 0, Kill 0, ParseLine 0 ''{a}''] @
     PublishDiagnostic 0 diagA ''/w'' # [] \<and>
   (\<exists>pre post.
      [ClearDiagnostics, Execute 0, Kill 0, ParseLine 0 ''{a}''] =
        pre @ ClearDiagnostics # Execute 0 # post \<and>
      (\<forall>ef\<in>set pre. effTask ef \<noteq> Some 0)) \<and>
   published (exec lineAfterKill) = replay [] (log (exec lineAfterKill))"
proof -
  have 1: "log (exec lineAfterKill) =
     [ClearDiagnostics, Execute 0, Kill 0, ParseLine 0 ''{a}''] @
     PublishDiagnostic 0 diagA ''/w'' # []"
    by (simp add: exec_lineAfterKill)
  show ?thesis
    using 1 C4_clear_before_own_publish[of _ _ _ _ _ lineAfterKill
        "[ClearDiagnostics, Execute 0, Kill 0, ParseLine 0 ''{a}'']" 0 diagA "''/w''" "[]"]
    by blast
qed

text \<open>The test run is in the slot and has published nothing, and the published set
  holds a diagnostic of the build, published after the clear of the test run.\<close>

theorem C4_counterexample:
  "currentTask (exec lateLine) = Some 1 \<and>
   log (exec lateLine) =
     [ClearDiagnostics, Execute 0, Kill 0, ClearDiagnostics, Execute 1,
      ParseLine 0 ''{late}'', PublishDiagnostic 0 diagLate ''/w''] \<and>
   published (exec lateLine) = [(''/w/src/lib.rs'', [diagLate])]"
  by (simp add: exec_lateLine)

subsection \<open>Argument vectors\<close>

text \<open>
  Claim C3, as amended. The claim puts the JSON-output flags before the command verb.
  \<^verbatim>\<open>runCargoWithCwd\<close> first prepends the flags to the caller's arguments and then
  prepends the verb to the result: for the verb \<open>check\<close> and the caller arguments
  \<open>--lib\<close> the task is created with the arguments \<open>check --message-format json --lib\<close>,
  the verb first, then the flags, then the caller's arguments.
\<close>

theorem C3_argument_vector:
  "tasks (runCargoWithCwd e ''check'' [''--lib''] dir s) =
   tasks s @ [newTask CargoTask [''check'', ''--message-format'', ''json'', ''--lib''] dir]"
  by (simp add: tasks_runCargoWithCwd cargoArgs_def jsonCommands_def)

text \<open>The argument vector of the claim is not the one of the task that is created.\<close>

theorem C3_counterexample:
  "map targs
     (tasks (exec [(exampleEnv, NewArray [''--lib'']), (exampleEnv, RunCargo ''check'' 0 True)])) \<noteq>
   [[''--message-format'', ''json'', ''check'', ''--lib'']]"
  by (simp add: exec_def init_def exampleEnv_def newArray_def runCargo_def runCargoWithCwd_def
      Let_def clearDiagnostics_def addTask_def execute_def newTask_def cargoArgs_def
      jsonCommands_def)

text \<open>
  Claim C6. The task of \<^verbatim>\<open>runCargoWithCwd\<close> gets the flags
  \<open>--message-format json\<close> in front of the caller's arguments exactly when the verb is
  one of build, check, clippy, test and run; for every other verb its arguments are the
  verb and the caller's arguments, with nothing added. The tasks of
  \<^verbatim>\<open>invokeCargoNew\<close> and \<^verbatim>\<open>invokeCargoInit\<close> get the verb and their own
  arguments, without the flags.
\<close>

theorem C6_json_flags:
  "tasks (runCargoWithCwd e command args dir s) =
   tasks s @
   [newTask CargoTask
      (command #
       (if command \<in> {''build'', ''check'', ''clippy'', ''test'', ''run''}
        then ''--message-format'' # ''json'' # args else args)) dir] \<and>
   tasks (invokeCargoNew e projectName isBin dir s) =
   tasks s @ [newTask Scaffold [''new'', projectName, if isBin then ''--bin'' else ''--lib''] dir] \<and>
   tasks (invokeCargoInit e crateType name dir s) =
   tasks s @
   [newTask Scaffold
      [''init'', ''--name'', name,
       case crateType of Application \<Rightarrow> ''--bin'' | Library \<Rightarrow> ''--lib''] dir]"
  by (cases crateType)
    (simp_all add: tasks_runCargoWithCwd cargoArgs_def jsonCommands_def invokeCargoNew_def
      invokeCargoInit_def Let_def channelClear_def channelShow_def addTask_def execute_def)

theorem C6_json_flags_witness:
  "tasks (runCargoWithCwd exampleEnv ''clippy'' [''--lib''] ''/w'' init) =
     [newTask CargoTask [''clippy'', ''--message-format'', ''json'', ''--lib''] ''/w''] \<and>
   tasks (runCargoWithCwd exampleEnv ''doc'' [''--open''] ''/w'' init) =
     [newTask CargoTask [''doc'', ''--open''] ''/w'']"
  using C6_json_flags[of exampleEnv "''clippy''" "[''--lib'']" "''/w''" init]
    C6_json_flags[of exampleEnv "''doc''" "[''--open'']" "''/w''" init]
  by (simp add: init_def)

subsection \<open>The availability probe\<close>

text \<open>What the callback of \<^verbatim>\<open>invokeCargoCheckWithArgs\<close> does when the probe ends
  with an exit code and the slot is empty: for the code 0 the run is \<open>check\<close> with the
  JSON flags and the contents of the caller's array, which stays as it is; for another
  code the array grows in place by \<open>--\<close> and \<open>-Zno-trans\<close> and the run is \<open>rustc\<close> with
  the contents it then has.\<close>

lemma probe_resolved:
  assumes "p < length (tasks s)" "live (tasks s ! p)" "tkind (tasks s ! p) = AvailabilityProbe a"
    "a < length (arrays s)" "currentTask s = None" "cwd e = Inr dir"
  shows "tasks (taskEnded e p (Resolved exitCode) now s) =
           (tasks s)[p := (tasks s ! p)\<lparr>tstate := Completed exitCode\<rparr>] @
           [newTask CargoTask
              (if exitCode = 0 then ''check'' # ''--message-format'' # ''json'' # arrays s ! a
               else ''rustc'' # arrays s ! a @ [''--'', ''-Zno-trans'']) dir]"
    and "arrays (taskEnded e p (Resolved exitCode) now s) =
           (if exitCode = 0 then arrays s
            else (arrays s)[a := arrays s ! a @ [''--'', ''-Zno-trans'']])"
  using assms
  by (simp_all add: taskEnded_def checkAvailabilityThen_def endState_def setState_def push_def
      runCargo_def tasks_runCargoWithCwd cargoArgs_def jsonCommands_def runCargoWithCwd_def
      clearDiagnostics_def channelShow_def addTask_def execute_def Let_def)

lemma probe_leaves_slot:
  "invokeCargoCheckWithArgs a s =
     s\<lparr>tasks := tasks s @ [newTask (AvailabilityProbe a) [''check'', ''--help''] ''/''],
       log := log s @ [Execute (length (tasks s))]\<rparr>"
  by (simp add: invokeCargoCheckWithArgs_def addTask_def execute_def)

text \<open>
  Claim C9. The choice by exit code and the probe's independence of the slot are as
  claimed (\<open>probe_resolved\<close>, \<open>probe_leaves_slot\<close>), but the arguments of the \<open>rustc\<close>
  run are not always the caller's arguments followed by one \<open>--\<close> \<open>-Zno-trans\<close>:
  \<^verbatim>\<open>args.push\<close> changes the caller's array itself. When two checks are invoked with
  the same array \<open>--lib\<close> and both probes exit with a code other than 0, the second
  callback appends to what the first one left, and the second run is
  \<open>rustc --lib -- -Zno-trans -- -Zno-trans\<close>.
\<close>

theorem C9_suffix_appended_twice:
  "map targs (filter (\<lambda>t. tkind t = CargoTask) (tasks (exec twoChecks))) =
     [[''rustc'', ''--lib'', ''--'', ''-Zno-trans''],
      [''rustc'', ''--lib'', ''--'', ''-Zno-trans'', ''--'', ''-Zno-trans'']] \<and>
   arrays (exec twoChecks) = [[''--lib'', ''--'', ''-Zno-trans'', ''--'', ''-Zno-trans'']]"
  by (simp add: exec_twoChecks)

subsection \<open>Errors\<close>

text \<open>
  Claim C7. When the slot is empty and \<^verbatim>\<open>cwd()\<close> throws, \<^verbatim>\<open>runCargo\<close>
  shows the error's message and returns: the state is the one before the call but for the
  message shown, so the slot stays empty, no task is created and the published set is
  neither cleared nor changed.
\<close>

theorem C7_cwd_failure:
  "currentTask s = None \<Longrightarrow> cwd e = Inl err \<Longrightarrow>
   runCargo e command args force s = s\<lparr>errorMessages := errorMessages s @ [message err]\<rparr>"
  by (simp add: runCargo_def)

theorem C7_cwd_failure_witness:
  "currentTask (newArray [] init) = None \<and>
   cwd noWorkspaceEnv = Inl (Error ''no workspace'') \<and>
   runCargo noWorkspaceEnv ''build'' 0 True (newArray [] init) =
     (newArray [] init)\<lparr>errorMessages := [''no workspace'']\<rparr> \<and>
   log (runCargo noWorkspaceEnv ''build'' 0 True (newArray [] init)) = []"
  using C7_cwd_failure[of "newArray [] init" noWorkspaceEnv "Error ''no workspace''" "''build''"
      0 True]
  by (simp add: init_def noWorkspaceEnv_def newArray_def)

text \<open>
  Claim C8. When \<^verbatim>\<open>execute()\<close> of the task in the slot is rejected, the slot is
  emptied and the status bar items are hidden in every case, and the message that cargo
  is not available is shown exactly when the rejection carries an error whose message is
  \<open>ENOENT\<close>; with another error, or with none (the task was interrupted), no message is
  shown.
\<close>

theorem C8_unexpected_end:
  assumes "t < length (tasks s)" "live (tasks s ! t)" "tkind (tasks s ! t) = CargoTask"
  shows "taskEnded e t (Rejected err) now s =
    (setState t (endState (Rejected err)) s)
      \<lparr>currentTask := None, statusBarShown := False,
       informationMessages := informationMessages s @
         (if \<exists>er. err = Some er \<and> message er = ''ENOENT'' then [cargoNotAvailable] else [])\<rparr>"
  using assms
  by (cases err) (simp_all add: taskEnded_def onUnexpectedlyEnded_def setState_def Let_def)

theorem C8_unexpected_end_witness:
  "0 < length (tasks (exec buildRunning)) \<and> live (tasks (exec buildRunning) ! 0) \<and>
   tkind (tasks (exec buildRunning) ! 0) = CargoTask \<and>
   informationMessages
     (taskEnded exampleEnv 0 (Rejected (Some (Error ''ENOENT''))) 3 (exec buildRunning)) =
     [cargoNotAvailable] \<and>
   informationMessages
     (taskEnded exampleEnv 0 (Rejected (Some (Error ''EACCES''))) 3 (exec buildRunning)) = [] \<and>
   informationMessages (taskEnded exampleEnv 0 (Rejected None) 3 (exec buildRunning)) = [] \<and>
   currentTask (taskEnded exampleEnv 0 (Rejected None) 3 (exec buildRunning)) = None \<and>
   \<not> statusBarShown (taskEnded exampleEnv 0 (Rejected None) 3 (exec buildRunning))"
  using C8_unexpected_end[of 0 "exec buildRunning" exampleEnv "Some (Error ''ENOENT'')" 3]
    C8_unexpected_end[of 0 "exec buildRunning" exampleEnv "Some (Error ''EACCES'')" 3]
    C8_unexpected_end[of 0 "exec buildRunning" exampleEnv None 3]
  by (simp add: exec_buildRunning live_def)

subsection \<open>The publishing toggle\<close>

text \<open>
  Claim C10. After \<^verbatim>\<open>setDiagnosticPublishingEnabled(false)\<close>, a stdout line of the
  running task that begins with a brace is passed to the parser and changes nothing
  else: nothing is published and nothing is appended to the output channel. A stdout
  line that does not begin with a brace, and every stderr line, is appended to the
  channel with a newline, whatever the toggle is.
\<close>

theorem C10_publishing_disabled:
  assumes "t < length (tasks s)" "tstate (tasks s ! t) = Running" "tkind (tasks s ! t) = CargoTask"
  shows "(startsWithBrace line \<longrightarrow>
            taskStdout e t line (setDiagnosticPublishingEnabled False s) =
            (setDiagnosticPublishingEnabled False s)\<lparr>log := log s @ [ParseLine t line]\<rparr>) \<and>
         (\<not> startsWithBrace line \<longrightarrow>
            taskStdout e t line (setDiagnosticPublishingEnabled b s) =
            (setDiagnosticPublishingEnabled b s)
              \<lparr>channel := channel s @ [Text (line @ [CHR 0x0A])]\<rparr>) \<and>
         taskStderr t line (setDiagnosticPublishingEnabled b s) =
           (setDiagnosticPublishingEnabled b s)
             \<lparr>channel := channel s @ [Text (line @ [CHR 0x0A])]\<rparr>"
  using assms
  by (simp add: taskStdout_def taskStderr_def onLineReceivedInStdout_eq onLineReceivedInStderr_def
      channelAppend_def setDiagnosticPublishingEnabled_def)

theorem C10_publishing_disabled_witness:
  "0 < length (tasks (exec buildRunning)) \<and> tstate (tasks (exec buildRunning) ! 0) = Running \<and>
   tkind (tasks (exec buildRunning) ! 0) = CargoTask \<and> startsWithBrace ''{a}'' \<and>
   \<not> startsWithBrace ''warning'' \<and>
   taskStdout exampleEnv 0 ''{a}'' (setDiagnosticPublishingEnabled False (exec buildRunning)) =
     (setDiagnosticPublishingEnabled False (exec buildRunning))
       \<lparr>log := [ClearDiagnostics, Execute 0, ParseLine 0 ''{a}'']\<rparr> \<and>
   channel (taskStdout exampleEnv 0 ''warning''
       (setDiagnosticPublishingEnabled False (exec buildRunning))) =
     [Text (''Started cargo build --message-format json'' @ [CHR 0x0A]),
      Text (''warning'' @ [CHR 0x0A])]"
  using C10_publishing_disabled[of 0 "exec buildRunning" "''{a}''" exampleEnv False]
    C10_publishing_disabled[of 0 "exec buildRunning" "''warning''" exampleEnv False]
  by (simp add: exec_buildRunning startsWithBrace_def setDiagnosticPublishingEnabled_def)


end
